theory Spec2Isabelle
  imports Main
begin

section \<open>Mention extraction (src/lib/mentions.ts)\<close>

text \<open>
  JavaScript strings are modelled as \<^typ>\<open>string\<close>. Every character class of the
  regular expressions below is a set of ASCII characters, so a code unit outside ASCII
  behaves like any other character that is in none of the classes.
\<close>

definition isAlpha :: "char \<Rightarrow> bool" where
  \<comment> \<open>the class \<open>[a-zA-Z]\<close>\<close>
  "isAlpha c \<longleftrightarrow>
     (let n = (of_char c :: nat) in (65 \<le> n \<and> n \<le> 90) \<or> (97 \<le> n \<and> n \<le> 122))"

definition isDigit :: "char \<Rightarrow> bool" where
  \<comment> \<open>the class \<open>[0-9]\<close>\<close>
  "isDigit c \<longleftrightarrow> (let n = (of_char c :: nat) in 48 \<le> n \<and> n \<le> 57)"

definition isWordChar :: "char \<Rightarrow> bool" where
  \<comment> \<open>the class \<open>\w\<close>, that is \<open>[A-Za-z0-9_]\<close>\<close>
  "isWordChar c \<longleftrightarrow> isAlpha c \<or> isDigit c \<or> c = CHR ''_''"

definition isNameChar :: "char \<Rightarrow> bool" where
  \<comment> \<open>the class \<open>[a-zA-Z0-9._-]\<close>\<close>
  "isNameChar c \<longleftrightarrow>
     isAlpha c \<or> isDigit c \<or> c = CHR ''.'' \<or> c = CHR ''_'' \<or> c = CHR ''-''"

definition isTrailingPunct :: "char \<Rightarrow> bool" where
  \<comment> \<open>the class \<open>[.,!?;:]\<close>\<close>
  "isTrailingPunct c \<longleftrightarrow>
     c = CHR ''.'' \<or> c = CHR '','' \<or> c = CHR ''!'' \<or> c = CHR ''?'' \<or> c = CHR '';'' \<or> c = CHR '':''"

text \<open>
  \<open>Array.from(text.matchAll(/(?<!\w)@([a-zA-Z][a-zA-Z0-9._-]*)/g))\<close>: the matches from left
  to right, each as (\<open>match.index\<close>, \<open>match[1]\<close>). The scan carries the index \<open>i\<close> of the
  next character and the character before it (\<open>None\<close> at the start of the text), which is
  what the lookbehind reads. A match needs an \<open>@\<close> that is not preceded by a word
  character and is followed by a letter; the greedy star then takes the longest run of
  name characters, and the search resumes right after the match.
\<close>

function mentionMatches :: "nat \<Rightarrow> char option \<Rightarrow> string \<Rightarrow> (nat \<times> string) list" where
  "mentionMatches i prev [] = []"
| "mentionMatches i prev (c # cs) =
     (if c = CHR ''@''
         \<and> \<not> (case prev of None \<Rightarrow> False | Some p \<Rightarrow> isWordChar p)
         \<and> (case cs of [] \<Rightarrow> False | d # _ \<Rightarrow> isAlpha d)
      then (i, takeWhile isNameChar cs)
             # mentionMatches (i + 1 + length (takeWhile isNameChar cs))
                 (Some (last (takeWhile isNameChar cs))) (dropWhile isNameChar cs)
      else mentionMatches (i + 1) (Some c) cs)"
  by pat_completeness auto
termination
  by (relation "measure (\<lambda>(i, prev, s). length s)")
     (auto simp: length_dropWhile_le less_Suc_eq_le)

text \<open>
  The loop \<open>while (username.length > 0 && /[.,!?;:]$/.test(username)) username =
  username.slice(0, -1)\<close>.
\<close>

function stripTrailingPunct :: "string \<Rightarrow> string" where
  "stripTrailingPunct username =
     (if username \<noteq> [] \<and> isTrailingPunct (last username)
      then stripTrailingPunct (butlast username) else username)"
  by pat_completeness auto
termination
  by (relation "measure length") auto

declare stripTrailingPunct.simps [simp del]

text \<open>The callback of \<open>matches.map\<close>: \<open>None\<close> is the \<open>null\<close> it returns.\<close>

definition cleanUsername :: "string \<Rightarrow> string option" where
  "cleanUsername captured =
     (let username = stripTrailingPunct captured
      in if length username < 2 \<or> length username > 50 then None else Some username)"

text \<open>
  \<open>[...new Set(usernames)]\<close>: a Set keeps its elements in insertion order and ignores
  the insertion of an element it already has.
\<close>

definition setAdd :: "'a list \<Rightarrow> 'a \<Rightarrow> 'a list" where
  "setAdd acc x = (if x \<in> set acc then acc else acc @ [x])"

definition arrayFromSet :: "'a list \<Rightarrow> 'a list" where
  "arrayFromSet xs = foldl setAdd [] xs"

definition extractMentions :: "string \<Rightarrow> string list" where
  "extractMentions text =
     (if text = [] then []
      else arrayFromSet
             (List.map_filter (\<lambda>m. cleanUsername (snd m)) (mentionMatches 0 None text)))"


text \<open>
  What "collapse to one entry, first-seen order preserved" means, written directly: each
  element is kept where it first occurs and its later occurrences are dropped.
\<close>

fun firstOccurrences :: "'a list \<Rightarrow> 'a list" where
  "firstOccurrences [] = []"
| "firstOccurrences (x # xs) = x # firstOccurrences (removeAll x xs)"

text \<open>
  The grammar of a mention written on positions, without a scan: a mention starts at
  position \<open>j\<close> when the character there is \<open>@\<close>, the character before it (if any) is not a
  word character, and the character after it is a letter; the captured run is the longest
  run of name characters after the \<open>@\<close>. \<open>grammarMatches\<close> lists the starts from left to
  right, each with its run.
\<close>

definition mentionStartsAt :: "string \<Rightarrow> nat \<Rightarrow> bool" where
  "mentionStartsAt s j \<longleftrightarrow>
     j < length s \<and> s ! j = CHR ''@''
     \<and> (if j = 0 then True else \<not> isWordChar (s ! (j - 1)))
     \<and> Suc j < length s \<and> isAlpha (s ! Suc j)"

definition grammarMatches :: "string \<Rightarrow> (nat \<times> string) list" where
  "grammarMatches s =
     map (\<lambda>j. (j, takeWhile isNameChar (drop (Suc j) s)))
       (filter (mentionStartsAt s) [0..<length s])"

section \<open>JavaScript helpers used by the Convex functions\<close>

text \<open>\<open>s.split(sep)\<close> for a separator of one character; the result is never empty.\<close>

fun splitOn :: "char \<Rightarrow> string \<Rightarrow> string list" where
  "splitOn sep [] = [[]]"
| "splitOn sep (c # cs) =
     (if c = sep then [] # splitOn sep cs
      else (case splitOn sep cs of [] \<Rightarrow> [[c]] | p # ps \<Rightarrow> (c # p) # ps))"

definition decimalValue :: "string \<Rightarrow> int" where
  "decimalValue s = foldl (\<lambda>acc c. 10 * acc + (int (of_char c) - 48)) 0 s"

text \<open>
  JavaScript numbers that are integers or \<open>NaN\<close>: \<open>None\<close> is \<open>NaN\<close>. \<open>Number\<close> and
  \<open>parseInt\<close> are modelled on decimal digits, which is what the stored format
  \<open>"HH:mm"\<close> contains: \<open>Number\<close> of a string of digits is its value (\<open>0\<close> for the empty
  string), \<open>parseInt\<close> reads the leading digits, and anything else is \<open>NaN\<close>. Signs, white
  space, fractions, exponents and radix prefixes are not modelled.
\<close>

definition Number :: "string \<Rightarrow> int option" where
  "Number s = (if list_all isDigit s then Some (decimalValue s) else None)"

definition parseInt :: "string \<Rightarrow> int option" where
  "parseInt s =
     (if takeWhile isDigit s = [] then None else Some (decimalValue (takeWhile isDigit s)))"

text \<open>Comparisons of numbers: every comparison with \<open>NaN\<close> is false.\<close>

definition js_lt :: "int option \<Rightarrow> int option \<Rightarrow> bool" where
  "js_lt a b = (case a of None \<Rightarrow> False | Some x \<Rightarrow> (case b of None \<Rightarrow> False | Some y \<Rightarrow> x < y))"

definition js_ge :: "int option \<Rightarrow> int option \<Rightarrow> bool" where
  "js_ge a b = (case a of None \<Rightarrow> False | Some x \<Rightarrow> (case b of None \<Rightarrow> False | Some y \<Rightarrow> x \<ge> y))"

definition js_gt :: "int option \<Rightarrow> int option \<Rightarrow> bool" where
  "js_gt a b = js_lt b a"

text \<open>\<open>h * 60 + m\<close>, which is \<open>NaN\<close> as soon as one operand is.\<close>

definition minutesOfDay :: "int option \<Rightarrow> int option \<Rightarrow> int option" where
  "minutesOfDay h m =
     (case h of None \<Rightarrow> None | Some x \<Rightarrow> (case m of None \<Rightarrow> None | Some y \<Rightarrow> Some (x * 60 + y)))"

text \<open>\<open>arr[i]\<close> of an array of numbers, read in arithmetic: \<open>undefined\<close> becomes \<open>NaN\<close>.\<close>

definition numberAt :: "int option list \<Rightarrow> nat \<Rightarrow> int option" where
  "numberAt arr i = (if i < length arr then arr ! i else None)"

text \<open>\<open>arr[0]\<close> of the result of \<open>split\<close>.\<close>

definition firstPart :: "string list \<Rightarrow> string" where
  "firstPart parts = (case parts of [] \<Rightarrow> [] | p # _ \<Rightarrow> p)"

text \<open>\<open>toLowerCase\<close> and \<open>trim\<close> on ASCII; other code units are left as they are.\<close>

definition lowerChar :: "char \<Rightarrow> char" where
  "lowerChar c =
     (let n = (of_char c :: nat) in if 65 \<le> n \<and> n \<le> 90 then char_of (n + 32) else c)"

definition toLowerCase :: "string \<Rightarrow> string" where
  "toLowerCase s = map lowerChar s"

definition isSpace :: "char \<Rightarrow> bool" where
  "isSpace c \<longleftrightarrow> (let n = (of_char c :: nat) in n = 32 \<or> (9 \<le> n \<and> n \<le> 13))"

definition trim :: "string \<Rightarrow> string" where
  "trim s = rev (dropWhile isSpace (rev (dropWhile isSpace s)))"

text \<open>\<open>s.includes(t)\<close>: \<open>t\<close> occurs in \<open>s\<close> as a contiguous substring.\<close>

fun includes_str :: "string \<Rightarrow> string \<Rightarrow> bool" where
  "includes_str [] t = (t = [])"
| "includes_str (c # cs) t = (take (length t) (c # cs) = t \<or> includes_str cs t)"

text \<open>\<open>Array.prototype.findIndex\<close>; \<open>None\<close> is the result \<open>-1\<close>.\<close>

fun findIndex :: "('a \<Rightarrow> bool) \<Rightarrow> 'a list \<Rightarrow> nat option" where
  "findIndex P [] = None"
| "findIndex P (x # xs) =
     (if P x then Some 0 else (case findIndex P xs of None \<Rightarrow> None | Some i \<Rightarrow> Some (Suc i)))"

text \<open>
  The clock: \<open>Date.now()\<close> in milliseconds since the epoch, and the offset of the local
  time zone of the runtime, in minutes ahead of UTC, which \<open>getHours\<close> uses.
\<close>

record clock =
  nowMs :: int
  tzOffsetMinutes :: int

definition getUTCHours :: "clock \<Rightarrow> int" where
  "getUTCHours clk = (nowMs clk div 3600000) mod 24"

definition getUTCMinutes :: "clock \<Rightarrow> int" where
  "getUTCMinutes clk = (nowMs clk div 60000) mod 60"

definition getHours :: "clock \<Rightarrow> int" where
  "getHours clk = ((nowMs clk + tzOffsetMinutes clk * 60000) div 3600000) mod 24"

section \<open>Documents and tables (convex/schema.ts)\<close>

type_synonym userId = nat
type_synonym workspaceId = nat
type_synonym channelId = nat
type_synonym conversationId = nat
type_synonym messageId = nat
type_synonym memberId = nat
type_synonym docId = nat

datatype triState = Inherit | Enabled | Disabled

datatype role = Admin | Member

datatype notificationType = Mention | DirectMessage | AllMessages

record quietHours =
  enabled :: bool
  startTime :: string
  endTime :: string
  timezone :: string

record globalPreferences =
  mentions :: bool
  directMessages :: bool
  sound :: bool
  desktop :: bool
  email :: bool
  mobile :: bool
  quietHours :: quietHours

text \<open>
  \<open>mutedUntil\<close> is an optional property: \<open>None\<close> when the object does not have it.
  The field \<open>keywordList\<close> is the property \<open>keywords\<close> of the source.
\<close>

record channelPreference =
  channelId :: channelId
  mentions :: triState
  allMessages :: triState
  threads :: triState
  keywordList :: "string list"
  mutedUntil :: "int option"

text \<open>
  The object that \<open>createDefaultPreferences\<close> returns, and the stored document, which
  has the system field \<open>_id\<close> and the two time stamps as well.
\<close>

record preferences =
  userId :: userId
  workspaceId :: workspaceId
  globalPreferences :: globalPreferences
  channelPreferences :: "channelPreference list"

record preferencesDoc = preferences +
  doc_id :: docId
  createdAt :: int
  updatedAt :: int

record user =
  user_id :: userId
  name :: "string option"
  email :: "string option"

record member =
  member_id :: memberId
  userId :: userId
  workspaceId :: workspaceId
  role :: role

record message =
  message_id :: messageId
  memberId :: memberId
  body :: string
  image :: "nat option"
  channelId :: "channelId option"
  conversationId :: "conversationId option"
  workspaceId :: workspaceId
  parentMessageId :: "messageId option"

record notification =
  userId :: userId
  messageId :: messageId
  workspaceId :: workspaceId
  channelId :: "channelId option"
  conversationId :: "conversationId option"
  type :: notificationType
  read :: bool
  createdAt :: int

text \<open>
  The database as the functions below use it: one list of documents per table, in
  the order in which a query returns them, and the next fresh document id.
\<close>

record db =
  users :: "user list"
  members :: "member list"
  messages :: "message list"
  notificationPreferences :: "preferencesDoc list"
  notifications :: "notification list"
  nextId :: nat

datatype error =
    Unauthorized
  | ParentMessageNotFound
  | FailedToCreatePreferences
  | NotUnique

text \<open>
  \<open>.unique()\<close> of a Convex query: the single document, \<open>null\<close> when there is none,
  and an exception when the query matches more than one document.
\<close>

definition unique :: "'a list \<Rightarrow> error + 'a option" where
  "unique docs = (case docs of [] \<Rightarrow> Inr None | [d] \<Rightarrow> Inr (Some d) | _ # _ # _ \<Rightarrow> Inl NotUnique)"

definition getUser :: "db \<Rightarrow> userId \<Rightarrow> user option" where
  \<comment> \<open>\<open>ctx.db.get(userId)\<close>, which is also \<open>populateUser\<close>\<close>
  "getUser d uid = find (\<lambda>u. user_id u = uid) (users d)"

definition getMember :: "db \<Rightarrow> workspaceId \<Rightarrow> userId \<Rightarrow> error + member option" where
  "getMember d wid uid =
     unique (filter (\<lambda>m. member.workspaceId m = wid \<and> member.userId m = uid) (members d))"

definition membersOfWorkspace :: "db \<Rightarrow> workspaceId \<Rightarrow> member list" where
  \<comment> \<open>the query on \<open>members\<close> with the index \<open>by_workspace_id\<close>, collected\<close>
  "membersOfWorkspace d wid = filter (\<lambda>m. member.workspaceId m = wid) (members d)"

definition queryPreferences :: "db \<Rightarrow> userId \<Rightarrow> workspaceId \<Rightarrow> error + preferencesDoc option" where
  \<comment> \<open>the query on \<open>notificationPreferences\<close> with the index \<open>by_user_workspace\<close>, then \<open>.unique()\<close>\<close>
  "queryPreferences d uid wid =
     unique (filter (\<lambda>p. preferences.userId p = uid \<and> preferences.workspaceId p = wid)
       (notificationPreferences d))"


section \<open>Notification preferences (convex/notificationPreferences.ts)\<close>

definition createDefaultPreferences :: "userId \<Rightarrow> workspaceId \<Rightarrow> preferences" where
  "createDefaultPreferences uid wid =
     \<lparr> preferences.userId = uid,
       preferences.workspaceId = wid,
       globalPreferences =
         \<lparr> globalPreferences.mentions = True,
           directMessages = True,
           sound = True,
           desktop = True,
           globalPreferences.email = False,
           mobile = True,
           quietHours =
             \<lparr> enabled = False, startTime = ''22:00'', endTime = ''08:00'', timezone = ''UTC'' \<rparr> \<rparr>,
       channelPreferences = [] \<rparr>"

text \<open>The stored document without its system fields, for \<open>preferences || defaults\<close>.\<close>

definition docPreferences :: "preferencesDoc \<Rightarrow> preferences" where
  "docPreferences p =
     \<lparr> preferences.userId = preferences.userId p,
       preferences.workspaceId = preferences.workspaceId p,
       globalPreferences = globalPreferences p,
       channelPreferences = channelPreferences p \<rparr>"

definition isInQuietHours :: "clock \<Rightarrow> quietHours \<Rightarrow> bool" where
  "isInQuietHours clk qh =
     (if enabled qh then
        (let currentTime = Some (getUTCHours clk * 60 + getUTCMinutes clk);
             startParts = map Number (splitOn CHR '':'' (startTime qh));
             endParts = map Number (splitOn CHR '':'' (endTime qh));
             startT = minutesOfDay (numberAt startParts 0) (numberAt startParts 1);
             endT = minutesOfDay (numberAt endParts 0) (numberAt endParts 1)
         in if js_gt startT endT
            then js_ge currentTime startT \<or> js_lt currentTime endT
            else js_ge currentTime startT \<and> js_lt currentTime endT)
      else False)"

text \<open>
  \<open>channelPref?.mutedUntil && channelPref.mutedUntil > Date.now()\<close>; the number \<open>0\<close> is
  falsy.
\<close>

definition isMuted :: "int \<Rightarrow> channelPreference option \<Rightarrow> bool" where
  "isMuted now channelPref =
     (case channelPref of None \<Rightarrow> False
      | Some cp \<Rightarrow> (case mutedUntil cp of None \<Rightarrow> False | Some t \<Rightarrow> t \<noteq> 0 \<and> t > now))"

definition findChannelPref :: "channelPreference list \<Rightarrow> channelId \<Rightarrow> channelPreference option" where
  \<comment> \<open>\<open>channelPreferences.find(cp => cp.channelId === channelId)\<close>\<close>
  "findChannelPref cps cid = find (\<lambda>cp. channelPreference.channelId cp = cid) cps"

definition shouldSendMentionNotification :: "preferences \<Rightarrow> channelId option \<Rightarrow> bool" where
  "shouldSendMentionNotification prefs cid =
     (case cid of None \<Rightarrow> globalPreferences.mentions (globalPreferences prefs)
      | Some c \<Rightarrow>
          (case findChannelPref (channelPreferences prefs) c of
             None \<Rightarrow> globalPreferences.mentions (globalPreferences prefs)
           | Some channelPref \<Rightarrow>
               (case channelPreference.mentions channelPref of
                  Enabled \<Rightarrow> True
                | Disabled \<Rightarrow> False
                | Inherit \<Rightarrow> globalPreferences.mentions (globalPreferences prefs))))"

definition shouldSendAllMessagesNotification :: "preferences \<Rightarrow> channelId option \<Rightarrow> bool" where
  "shouldSendAllMessagesNotification prefs cid =
     (case cid of None \<Rightarrow> False
      | Some c \<Rightarrow>
          (case findChannelPref (channelPreferences prefs) c of
             None \<Rightarrow> False
           | Some channelPref \<Rightarrow>
               (case allMessages channelPref of
                  Enabled \<Rightarrow> True
                | Disabled \<Rightarrow> False
                | Inherit \<Rightarrow> False)))"

definition shouldSendNotification ::
  "db \<Rightarrow> clock \<Rightarrow> userId \<Rightarrow> workspaceId \<Rightarrow> channelId option \<Rightarrow> notificationType \<Rightarrow> error + bool" where
  "shouldSendNotification d clk uid wid cid ntype =
     (case queryPreferences d uid wid of
        Inl e \<Rightarrow> Inl e
      | Inr found \<Rightarrow>
          (let prefs = (case found of None \<Rightarrow> createDefaultPreferences uid wid
                        | Some p \<Rightarrow> docPreferences p)
           in if isInQuietHours clk (quietHours (globalPreferences prefs)) then Inr False
              else if (case cid of None \<Rightarrow> False
                       | Some c \<Rightarrow> isMuted (nowMs clk) (findChannelPref (channelPreferences prefs) c))
              then Inr False
              else (case ntype of
                      Mention \<Rightarrow> Inr (shouldSendMentionNotification prefs cid)
                    | DirectMessage \<Rightarrow> Inr (directMessages (globalPreferences prefs))
                    | AllMessages \<Rightarrow> Inr (shouldSendAllMessagesNotification prefs cid))))"

text \<open>
  The argument \<open>preferences\<close> of \<open>updateChannel\<close>: every property is optional, and
  \<open>mutedUntil\<close> may also be \<open>null\<close>.
\<close>

datatype 'a nullable = Undefined | Null | Value 'a

record channelPreferencesUpdate =
  mentions :: "triState option"
  allMessages :: "triState option"
  threads :: "triState option"
  keywordList :: "string list option"
  mutedUntil :: "int nullable"

text \<open>
  The object \<open>channelUpdate\<close>: \<open>x || default\<close> for the first four properties; the property
  \<open>mutedUntil\<close> is there only when the argument is a number.
\<close>

definition channelUpdate :: "channelId \<Rightarrow> channelPreferencesUpdate \<Rightarrow> channelPreference" where
  "channelUpdate cid p =
     \<lparr> channelPreference.channelId = cid,
       channelPreference.mentions =
         (case channelPreferencesUpdate.mentions p of None \<Rightarrow> Inherit | Some v \<Rightarrow> v),
       channelPreference.allMessages =
         (case channelPreferencesUpdate.allMessages p of None \<Rightarrow> Disabled | Some v \<Rightarrow> v),
       channelPreference.threads =
         (case channelPreferencesUpdate.threads p of None \<Rightarrow> Enabled | Some v \<Rightarrow> v),
       channelPreference.keywordList =
         (case channelPreferencesUpdate.keywordList p of None \<Rightarrow> [] | Some ks \<Rightarrow> ks),
       channelPreference.mutedUntil =
         (case channelPreferencesUpdate.mutedUntil p of
            Undefined \<Rightarrow> None | Null \<Rightarrow> None | Value t \<Rightarrow> Some t) \<rparr>"

text \<open>
  The spread \<open>{...existing, ...update}\<close> of two channel preference objects: a property of
  \<open>update\<close> wins, and \<open>mutedUntil\<close> is the only property that \<open>update\<close> may lack.
\<close>

definition spreadChannel :: "channelPreference \<Rightarrow> channelPreference \<Rightarrow> channelPreference" where
  "spreadChannel existing update =
     update \<lparr> channelPreference.mutedUntil :=
       (case channelPreference.mutedUntil update of
          None \<Rightarrow> channelPreference.mutedUntil existing
        | Some t \<Rightarrow> Some t) \<rparr>"

text \<open>Lines 494 to 515 of the handler: the new value of \<open>channelPreferences\<close>.\<close>

definition updatedChannelPrefs ::
  "channelPreference list \<Rightarrow> channelId \<Rightarrow> channelPreferencesUpdate \<Rightarrow> channelPreference list" where
  "updatedChannelPrefs channelPrefs cid p =
     (case findIndex (\<lambda>pref. channelPreference.channelId pref = cid) channelPrefs of
        Some existingIndex \<Rightarrow>
          channelPrefs [existingIndex :=
            spreadChannel (channelPrefs ! existingIndex) (channelUpdate cid p)]
      | None \<Rightarrow> channelPrefs @ [channelUpdate cid p])"

text \<open>
  \<open>ctx.db.insert('notificationPreferences', {...defaultPrefs, createdAt, updatedAt})\<close>
  followed by \<open>ctx.db.get(prefsId)\<close>.
\<close>

definition insertDefaultPreferences ::
  "db \<Rightarrow> int \<Rightarrow> userId \<Rightarrow> workspaceId \<Rightarrow> error + (db \<times> preferencesDoc)" where
  "insertDefaultPreferences d now uid wid =
     (let defaultPrefs = createDefaultPreferences uid wid;
          prefsId = nextId d;
          doc = \<lparr> preferences.userId = preferences.userId defaultPrefs,
                  preferences.workspaceId = preferences.workspaceId defaultPrefs,
                  globalPreferences = globalPreferences defaultPrefs,
                  channelPreferences = channelPreferences defaultPrefs,
                  doc_id = prefsId,
                  preferencesDoc.createdAt = now,
                  updatedAt = now \<rparr>;
          d1 = d \<lparr> notificationPreferences := notificationPreferences d @ [doc],
                    nextId := Suc prefsId \<rparr>
      in case find (\<lambda>p. doc_id p = prefsId) (notificationPreferences d1) of
           None \<Rightarrow> Inl FailedToCreatePreferences
         | Some userPrefs \<Rightarrow> Inr (d1, userPrefs))"

definition patchChannelPreferences :: "db \<Rightarrow> docId \<Rightarrow> channelPreference list \<Rightarrow> int \<Rightarrow> db" where
  \<comment> \<open>\<open>ctx.db.patch(id, {channelPreferences, updatedAt})\<close>\<close>
  "patchChannelPreferences d i channelPrefs now =
     d \<lparr> notificationPreferences :=
           map (\<lambda>p. if doc_id p = i
                     then p \<lparr> channelPreferences := channelPrefs, updatedAt := now \<rparr>
                     else p)
             (notificationPreferences d) \<rparr>"

text \<open>
  The mutation \<open>updateChannel\<close>; \<open>currentUserId\<close> is the result of \<open>auth.getUserId\<close> and
  \<open>now\<close> that of \<open>Date.now()\<close>.
\<close>

definition updateChannel ::
  "db \<Rightarrow> userId option \<Rightarrow> int \<Rightarrow> userId \<Rightarrow> workspaceId \<Rightarrow> channelId \<Rightarrow> channelPreferencesUpdate
     \<Rightarrow> error + (db \<times> docId)" where
  "updateChannel d currentUserId now uid wid cid p =
     (if currentUserId = Some uid then
        (case queryPreferences d uid wid of
           Inl e \<Rightarrow> Inl e
         | Inr found \<Rightarrow>
             (case (case found of
                      Some doc \<Rightarrow> Inr (d, doc)
                    | None \<Rightarrow> insertDefaultPreferences d now uid wid) of
                Inl e \<Rightarrow> Inl e
              | Inr (d1, userPrefs) \<Rightarrow>
                  Inr (patchChannelPreferences d1 (doc_id userPrefs)
                         (updatedChannelPrefs (channelPreferences userPrefs) cid p) now,
                       doc_id userPrefs)))
      else Inl Unauthorized)"

section \<open>Member search for the autocomplete (convex/members.ts)\<close>

record matchingMember =
  member_id :: memberId
  userId :: userId
  workspaceId :: workspaceId
  role :: role
  user :: user
  displayName :: string
  username :: string

text \<open>The \<open>for\<close> loop over the members of the workspace.\<close>

fun matchLoop ::
  "db \<Rightarrow> string \<Rightarrow> int \<Rightarrow> member list \<Rightarrow> matchingMember list \<Rightarrow> matchingMember list" where
  "matchLoop d searchTerm limit [] matchingMembers = matchingMembers"
| "matchLoop d searchTerm limit (m # ms) matchingMembers =
     (if int (length matchingMembers) \<ge> limit then matchingMembers
      else (case getUser d (member.userId m) of
              None \<Rightarrow> matchLoop d searchTerm limit ms matchingMembers
            | Some u \<Rightarrow>
                (let name = (case user.name u of None \<Rightarrow> [] | Some n \<Rightarrow> toLowerCase n);
                     email = (case user.email u of None \<Rightarrow> [] | Some e \<Rightarrow> toLowerCase e);
                     emailUsername = firstPart (splitOn CHR ''@'' email)
                 in if includes_str name searchTerm \<or> includes_str emailUsername searchTerm
                       \<or> includes_str email searchTerm
                    then matchLoop d searchTerm limit ms
                           (matchingMembers @
                             [\<lparr> matchingMember.member_id = member.member_id m,
                                matchingMember.userId = member.userId m,
                                matchingMember.workspaceId = member.workspaceId m,
                                matchingMember.role = member.role m,
                                user = u,
                                displayName =
                                  (case user.name u of None \<Rightarrow> ''Unknown User''
                                   | Some n \<Rightarrow> if n = [] then ''Unknown User'' else n),
                                username =
                                  (if emailUsername = []
                                   then (case user.email u of None \<Rightarrow> ''unknown''
                                         | Some e \<Rightarrow> if e = [] then ''unknown'' else e)
                                   else emailUsername) \<rparr>])
                    else matchLoop d searchTerm limit ms matchingMembers)))"

text \<open>
  The query \<open>getByUsername\<close>; \<open>currentUserId\<close> is the result of \<open>auth.getUserId\<close>, and
  \<open>args.limit || 10\<close> replaces a missing limit and the limit \<open>0\<close> by \<open>10\<close>.
\<close>

definition getByUsername ::
  "db \<Rightarrow> userId option \<Rightarrow> workspaceId \<Rightarrow> string \<Rightarrow> int option \<Rightarrow> error + matchingMember list" where
  "getByUsername d currentUserId wid searchTerm limitArg =
     (case currentUserId of
        None \<Rightarrow> Inr []
      | Some uid \<Rightarrow>
          (case getMember d wid uid of
             Inl e \<Rightarrow> Inl e
           | Inr None \<Rightarrow> Inr []
           | Inr (Some currentMember) \<Rightarrow>
               if length (trim searchTerm) < 1 then Inr []
               else Inr (matchLoop d (trim (toLowerCase searchTerm))
                           (case limitArg of None \<Rightarrow> 10 | Some n \<Rightarrow> if n = 0 then 10 else n)
                           (membersOfWorkspace d wid) [])))"


section \<open>Mention notifications on message creation (convex/messages.ts)\<close>

text \<open>
  The \<open>exec\<close> loop of the file's own \<open>extractMentions\<close> with \<open>/@(\w+)/g\<close>: every \<open>@\<close>
  that is followed by a word character matches, whatever precedes it, and captures
  the longest run of word characters.
\<close>

function wordMentionMatches :: "string \<Rightarrow> string list" where
  "wordMentionMatches [] = []"
| "wordMentionMatches (c # cs) =
     (if c = CHR ''@'' \<and> (case cs of [] \<Rightarrow> False | d # _ \<Rightarrow> isWordChar d)
      then takeWhile isWordChar cs # wordMentionMatches (dropWhile isWordChar cs)
      else wordMentionMatches cs)"
  by pat_completeness auto
termination
  by (relation "measure length") (auto simp: length_dropWhile_le less_Suc_eq_le)

definition extractMentions_messages :: "string \<Rightarrow> string list" where
  "extractMentions_messages messageBody = arrayFromSet (wordMentionMatches messageBody)"

text \<open>
  \<open>getMentionedUsers\<close>: the users of the members of the workspace, in the order of the
  members, kept when \<open>user && user.name && usernames.includes(user.name)\<close>.
\<close>

definition getMentionedUsers :: "db \<Rightarrow> workspaceId \<Rightarrow> string list \<Rightarrow> userId list" where
  "getMentionedUsers d wid usernames =
     (if usernames = [] then []
      else List.map_filter
             (\<lambda>found. case found of
                None \<Rightarrow> None
              | Some u \<Rightarrow>
                  (case user.name u of
                     None \<Rightarrow> None
                   | Some n \<Rightarrow> if n \<noteq> [] \<and> n \<in> set usernames then Some (user_id u) else None))
             (map (\<lambda>m. getUser d (member.userId m)) (membersOfWorkspace d wid)))"

text \<open>
  \<open>checkNotificationPreferences\<close> once the document is loaded; each \<open>return\<close> of the
  source is the boolean of the corresponding branch. The quiet hours are looked at last,
  on the paths that have not returned before.
\<close>

definition checkLoadedPreferences :: "clock \<Rightarrow> preferencesDoc \<Rightarrow> channelId option \<Rightarrow> bool" where
  "checkLoadedPreferences clk preferences cid =
     (let quietHoursCheck =
            (let qh = quietHours (globalPreferences preferences)
             in if enabled qh then
                  (let currentHour = Some (getHours clk);
                       startHour = parseInt (firstPart (splitOn CHR '':'' (startTime qh)));
                       endHour = parseInt (firstPart (splitOn CHR '':'' (endTime qh)))
                   in if js_lt startHour endHour
                      then (if js_ge currentHour startHour \<and> js_lt currentHour endHour
                            then False else True)
                      else (if js_ge currentHour startHour \<or> js_lt currentHour endHour
                            then False else True))
                else True)
      in if globalPreferences.mentions (globalPreferences preferences) then
           (case cid of
              None \<Rightarrow> quietHoursCheck
            | Some c \<Rightarrow>
                (case findChannelPref (channelPreferences preferences) c of
                   None \<Rightarrow> quietHoursCheck
                 | Some channelPref \<Rightarrow>
                     if isMuted (nowMs clk) (Some channelPref) then False
                     else (case channelPreference.mentions channelPref of
                             Disabled \<Rightarrow> False
                           | Enabled \<Rightarrow> True
                           | Inherit \<Rightarrow> quietHoursCheck)))
         else False)"

definition checkNotificationPreferences ::
  "db \<Rightarrow> clock \<Rightarrow> userId \<Rightarrow> workspaceId \<Rightarrow> channelId option \<Rightarrow> error + bool" where
  "checkNotificationPreferences d clk uid wid cid =
     (case queryPreferences d uid wid of
        Inl e \<Rightarrow> Inl e
      | Inr None \<Rightarrow> Inr True
      | Inr (Some preferences) \<Rightarrow> Inr (checkLoadedPreferences clk preferences cid))"

text \<open>
  The \<open>for\<close> loop of \<open>handleMentionNotifications\<close>, with its two awaited operations as
  parameters: \<open>check\<close> is the call of \<open>checkNotificationPreferences\<close> and \<open>ins\<close> the
  \<open>ctx.db.insert\<close> of the notification. There is no \<open>try\<close> around either, so a rejected
  promise leaves the loop and the function.
\<close>

fun notifyEach ::
  "('s \<Rightarrow> userId \<Rightarrow> error + bool) \<Rightarrow> ('s \<Rightarrow> userId \<Rightarrow> error + 's) \<Rightarrow> userId option
     \<Rightarrow> userId list \<Rightarrow> 's \<Rightarrow> error + 's" where
  "notifyEach check ins authorUserId [] s = Inr s"
| "notifyEach check ins authorUserId (uid # rest) s =
     (if authorUserId = Some uid then notifyEach check ins authorUserId rest s
      else (case check s uid of
              Inl e \<Rightarrow> Inl e
            | Inr shouldNotify \<Rightarrow>
                if shouldNotify
                then (case ins s uid of
                        Inl e \<Rightarrow> Inl e
                      | Inr s' \<Rightarrow> notifyEach check ins authorUserId rest s')
                else notifyEach check ins authorUserId rest s))"

definition mentionNotification ::
  "userId \<Rightarrow> messageId \<Rightarrow> workspaceId \<Rightarrow> channelId option \<Rightarrow> conversationId option \<Rightarrow> int
     \<Rightarrow> notification" where
  "mentionNotification uid mid wid cid convId now =
     \<lparr> notification.userId = uid,
       messageId = mid,
       notification.workspaceId = wid,
       notification.channelId = cid,
       notification.conversationId = convId,
       type = Mention,
       read = False,
       notification.createdAt = now \<rparr>"

definition insertNotification :: "db \<Rightarrow> notification \<Rightarrow> error + db" where
  \<comment> \<open>\<open>ctx.db.insert('notifications', ...)\<close> on the list model of the table\<close>
  "insertNotification d n = Inr (d \<lparr> notifications := notifications d @ [n] \<rparr>)"

definition handleMentionNotifications ::
  "db \<Rightarrow> clock \<Rightarrow> messageId \<Rightarrow> string \<Rightarrow> workspaceId \<Rightarrow> channelId option \<Rightarrow> conversationId option
     \<Rightarrow> userId option \<Rightarrow> error + db" where
  "handleMentionNotifications d clk mid messageBody wid cid convId authorUserId =
     (let mentionedUsernames = extractMentions_messages messageBody
      in if mentionedUsernames = [] then Inr d
         else notifyEach
                (\<lambda>s uid. checkNotificationPreferences s clk uid wid cid)
                (\<lambda>s uid. insertNotification s (mentionNotification uid mid wid cid convId (nowMs clk)))
                authorUserId
                (getMentionedUsers d wid mentionedUsernames) d)"

text \<open>
  The mutation \<open>create\<close> of messages; \<open>currentUserId\<close> is the result of
  \<open>auth.getUserId\<close>. It passes the caller's user id as \<open>authorUserId\<close>.
\<close>

definition create ::
  "db \<Rightarrow> clock \<Rightarrow> userId option \<Rightarrow> string \<Rightarrow> nat option \<Rightarrow> workspaceId \<Rightarrow> channelId option
     \<Rightarrow> messageId option \<Rightarrow> conversationId option \<Rightarrow> error + (db \<times> messageId)" where
  "create d clk currentUserId bodyArg imageArg wid cid parentId convArg =
     (case currentUserId of
        None \<Rightarrow> Inl Unauthorized
      | Some uid \<Rightarrow>
          (case getMember d wid uid of
             Inl e \<Rightarrow> Inl e
           | Inr None \<Rightarrow> Inl Unauthorized
           | Inr (Some m) \<Rightarrow>
               (case (if convArg = None \<and> cid = None
                      then (case parentId of
                              None \<Rightarrow> Inr convArg
                            | Some pid \<Rightarrow>
                                (case find (\<lambda>msg. message_id msg = pid) (messages d) of
                                   None \<Rightarrow> Inl ParentMessageNotFound
                                 | Some parentMessage \<Rightarrow>
                                     Inr (message.conversationId parentMessage)))
                      else Inr convArg) of
                  Inl e \<Rightarrow> Inl e
                | Inr convId \<Rightarrow>
                    (let mid = nextId d;
                         d1 = d \<lparr> messages := messages d @
                                    [\<lparr> message_id = mid,
                                       memberId = member.member_id m,
                                       body = bodyArg,
                                       image = imageArg,
                                       message.channelId = cid,
                                       message.conversationId = convId,
                                       message.workspaceId = wid,
                                       parentMessageId = parentId \<rparr>],
                                  nextId := Suc mid \<rparr>
                     in case handleMentionNotifications d1 clk mid bodyArg wid cid convId (Some uid) of
                          Inl e \<Rightarrow> Inl e
                        | Inr d2 \<Rightarrow> Inr (d2, mid)))))"


section \<open>Concrete documents used in the evaluations below\<close>

definition clockAt :: "int \<Rightarrow> int \<Rightarrow> clock" where
  \<comment> \<open>a moment of the first day of the epoch, in a runtime whose local time is UTC\<close>
  "clockAt h m = \<lparr> nowMs = h * 3600000 + m * 60000, tzOffsetMinutes = 0 \<rparr>"

definition exQuietHours :: "bool \<Rightarrow> quietHours" where
  "exQuietHours on =
     \<lparr> enabled = on, startTime = ''22:00'', endTime = ''08:00'', timezone = ''UTC'' \<rparr>"

definition exGlobal :: "bool \<Rightarrow> bool \<Rightarrow> globalPreferences" where
  "exGlobal globalMentions quiet =
     \<lparr> globalPreferences.mentions = globalMentions,
       directMessages = True,
       sound = True,
       desktop = True,
       globalPreferences.email = False,
       mobile = True,
       quietHours = exQuietHours quiet \<rparr>"

definition exChannel :: "channelId \<Rightarrow> triState \<Rightarrow> channelPreference" where
  "exChannel c m =
     \<lparr> channelPreference.channelId = c,
       channelPreference.mentions = m,
       channelPreference.allMessages = Disabled,
       channelPreference.threads = Enabled,
       channelPreference.keywordList = [],
       channelPreference.mutedUntil = None \<rparr>"

definition exDoc ::
  "docId \<Rightarrow> userId \<Rightarrow> globalPreferences \<Rightarrow> channelPreference list \<Rightarrow> preferencesDoc" where
  "exDoc i uid g cps =
     \<lparr> preferences.userId = uid,
       preferences.workspaceId = 1,
       globalPreferences = g,
       channelPreferences = cps,
       doc_id = i,
       preferencesDoc.createdAt = 0,
       updatedAt = 0 \<rparr>"

text \<open>
  Workspace 1 with three members: alice (user 1), Sarah (user 2) and carol (user 3).
\<close>

definition exUsers :: "user list" where
  "exUsers =
     [\<lparr> user_id = 1, name = Some ''alice'', email = Some ''alice@example.com'' \<rparr>,
      \<lparr> user_id = 2, name = Some ''Sarah'', email = Some ''sarah@example.com'' \<rparr>,
      \<lparr> user_id = 3, name = Some ''carol'', email = Some ''carol@example.com'' \<rparr>]"

definition exMembers :: "member list" where
  "exMembers =
     [\<lparr> member.member_id = 11, member.userId = 1, member.workspaceId = 1, member.role = Admin \<rparr>,
      \<lparr> member.member_id = 12, member.userId = 2, member.workspaceId = 1, member.role = Member \<rparr>,
      \<lparr> member.member_id = 13, member.userId = 3, member.workspaceId = 1, member.role = Member \<rparr>]"

definition exDb :: "preferencesDoc list \<Rightarrow> db" where
  "exDb docs =
     \<lparr> users = exUsers, members = exMembers, messages = [],
       notificationPreferences = docs, notifications = [], nextId = 100 \<rparr>"

text \<open>An update that names \<open>mutedUntil\<close> only, as the settings panel sends it.\<close>

definition exMuteOnly :: "int nullable \<Rightarrow> channelPreferencesUpdate" where
  "exMuteOnly v =
     \<lparr> channelPreferencesUpdate.mentions = None,
       channelPreferencesUpdate.allMessages = None,
       channelPreferencesUpdate.threads = None,
       channelPreferencesUpdate.keywordList = None,
       channelPreferencesUpdate.mutedUntil = v \<rparr>"

definition exTunedChannel :: "channelPreference" where
  "exTunedChannel =
     \<lparr> channelPreference.channelId = 7,
       channelPreference.mentions = Enabled,
       channelPreference.allMessages = Enabled,
       channelPreference.threads = Disabled,
       channelPreference.keywordList = [''urgent''],
       channelPreference.mutedUntil = None \<rparr>"

definition exMutedChannel :: "channelPreference" where
  "exMutedChannel = (exChannel 7 Inherit) \<lparr> channelPreference.mutedUntil := Some 9000 \<rparr>"

text \<open>The muted entry after an update that sets \<open>mutedUntil\<close> to 999.\<close>

definition exExpiredChannel :: "channelPreference" where
  "exExpiredChannel = (exChannel 7 Inherit) \<lparr> channelPreference.mutedUntil := Some 999 \<rparr>"

text \<open>Two preference documents for user 2 in workspace 1.\<close>

definition exDuplicateDb :: db where
  "exDuplicateDb = exDb [exDoc 50 2 (exGlobal True False) [], exDoc 51 2 (exGlobal True False) []]"

section \<open>Properties of the mention extractor\<close>

lemma foldl_setAdd_set: "set (foldl setAdd acc xs) = set acc \<union> set xs"
  by (induction xs arbitrary: acc) (auto simp: setAdd_def)

lemma foldl_setAdd_distinct: "distinct acc \<Longrightarrow> distinct (foldl setAdd acc xs)"
  by (induction xs arbitrary: acc) (auto simp: setAdd_def)

lemma foldl_setAdd_firstOccurrences:
  "foldl setAdd acc xs = acc @ firstOccurrences (filter (\<lambda>y. y \<notin> set acc) xs)"
proof (induction xs arbitrary: acc)
  case Nil
  then show ?case by simp
next
  case (Cons x xs)
  show ?case
  proof (cases "x \<in> set acc")
    case True
    then show ?thesis using Cons.IH [of acc] by (simp add: setAdd_def)
  next
    case False
    have "removeAll x (filter (\<lambda>y. y \<notin> set acc) xs) = filter (\<lambda>y. y \<notin> set (acc @ [x])) xs"
      by (induction xs) auto
    then show ?thesis using False Cons.IH [of "acc @ [x]"] by (simp add: setAdd_def)
  qed
qed

lemma arrayFromSet_firstOccurrences: "arrayFromSet xs = firstOccurrences xs"
  using foldl_setAdd_firstOccurrences [of "[]" xs] by (simp add: arrayFromSet_def)

lemma stripTrailingPunct_rev:
  "stripTrailingPunct s = rev (dropWhile isTrailingPunct (rev s))"
proof (induction s rule: stripTrailingPunct.induct)
  case (1 username)
  show ?case
  proof (cases "username \<noteq> [] \<and> isTrailingPunct (last username)")
    case True
    then obtain ys y where u: "username = ys @ [y]" by (metis rev_exhaust)
    with True have "isTrailingPunct y" by simp
    with 1 True u show ?thesis by (subst stripTrailingPunct.simps) simp
  next
    case False
    then show ?thesis
      by (subst stripTrailingPunct.simps) (cases username rule: rev_cases; simp)
  qed
qed

lemma stripTrailingPunct_last:
  "stripTrailingPunct s \<noteq> [] \<Longrightarrow> \<not> isTrailingPunct (last (stripTrailingPunct s))"
  unfolding stripTrailingPunct_rev
  by (metis (no_types) hd_dropWhile last_rev rev_is_Nil_conv)

lemma stripTrailingPunct_prefix:
  "\<exists>ps. s = stripTrailingPunct s @ ps \<and> (\<forall>c \<in> set ps. isTrailingPunct c)"
proof -
  have "rev s = takeWhile isTrailingPunct (rev s) @ dropWhile isTrailingPunct (rev s)" by simp
  then have "s = rev (dropWhile isTrailingPunct (rev s)) @ rev (takeWhile isTrailingPunct (rev s))"
    by (metis rev_append rev_rev_ident)
  moreover have "\<forall>c \<in> set (rev (takeWhile isTrailingPunct (rev s))). isTrailingPunct c"
    by (auto dest: set_takeWhileD)
  ultimately show ?thesis unfolding stripTrailingPunct_rev by blast
qed

lemma mentionMatches_positions:
  "text = pre @ s \<Longrightarrow> length pre = i \<Longrightarrow> prev = (if pre = [] then None else Some (last pre)) \<Longrightarrow>
   (j, cap) \<in> set (mentionMatches i prev s) \<Longrightarrow>
   i \<le> j \<and> j < length text \<and> text ! j = CHR ''@'' \<and> (j = 0 \<or> \<not> isWordChar (text ! (j - 1)))
   \<and> cap = takeWhile isNameChar (drop (Suc j) text) \<and> cap \<noteq> [] \<and> isAlpha (hd cap)"
proof (induction i prev s arbitrary: pre rule: mentionMatches.induct)
  case (1 i prev)
  then show ?case by simp
next
  case (2 i prev c cs)
  let ?m = "c = CHR ''@'' \<and> \<not> (case prev of None \<Rightarrow> False | Some p \<Rightarrow> isWordChar p)
         \<and> (case cs of [] \<Rightarrow> False | d # _ \<Rightarrow> isAlpha d)"
  let ?run = "takeWhile isNameChar cs"
  show ?case
  proof (cases ?m)
    case True
    then obtain d ds where cs: "cs = d # ds" and d: "isAlpha d" by (cases cs) auto
    then have run_ne: "?run \<noteq> []" by (simp add: isNameChar_def)
    have hd_run: "hd ?run = d" using cs d by (simp add: isNameChar_def)
    have unfold: "mentionMatches i prev (c # cs)
        = (i, ?run) # mentionMatches (i + 1 + length ?run) (Some (last ?run)) (dropWhile isNameChar cs)"
      by (subst mentionMatches.simps(2)) (rule if_P [OF True])
    from "2.prems"(4)
    consider (here) "(j, cap) = (i, ?run)"
      | (later) "(j, cap) \<in> set (mentionMatches (i + 1 + length ?run) (Some (last ?run)) (dropWhile isNameChar cs))"
      unfolding unfold by auto
    then show ?thesis
    proof cases
      case here
      have "text ! i = c" using "2.prems"(1,2) by (simp add: nth_append)
      moreover have "drop (Suc i) text = cs" using "2.prems"(1,2) by simp
      moreover have "i = 0 \<or> \<not> isWordChar (text ! (i - 1))"
      proof (cases "pre = []")
        case True
        then show ?thesis using "2.prems"(2) by simp
      next
        case False
        then have "0 < i" using "2.prems"(2) by auto
        then have "text ! (i - 1) = last pre"
          using False "2.prems"(1,2) by (simp add: nth_append last_conv_nth)
        then show ?thesis using True False "2.prems"(3) by simp
      qed
      moreover have "i < length text" using "2.prems"(1,2) by simp
      ultimately show ?thesis using here True run_ne hd_run d by simp
    next
      case later
      let ?pre = "pre @ c # ?run"
      have t: "text = ?pre @ dropWhile isNameChar cs" using "2.prems"(1) by simp
      have l: "length ?pre = i + 1 + length ?run" using "2.prems"(2) by simp
      have p: "Some (last ?run) = (if ?pre = [] then None else Some (last ?pre))"
        using run_ne by simp
      from "2.IH"(1)[OF True t l p later] show ?thesis by auto
    qed
  next
    case False
    have "mentionMatches i prev (c # cs) = mentionMatches (i + 1) (Some c) cs"
      by (subst mentionMatches.simps(2)) (rule if_not_P [OF False])
    then have later: "(j, cap) \<in> set (mentionMatches (i + 1) (Some c) cs)"
      using "2.prems"(4) by simp
    have t: "text = (pre @ [c]) @ cs" using "2.prems"(1) by simp
    have l: "length (pre @ [c]) = i + 1" using "2.prems"(2) by simp
    have p: "Some c = (if pre @ [c] = [] then None else Some (last (pre @ [c])))" by simp
    from "2.IH"(2)[OF False t l p later] show ?thesis by auto
  qed
qed


lemma at_not_nameChar: "\<not> isNameChar CHR ''@''"
  by (simp add: isNameChar_def isAlpha_def isDigit_def)

lemma mentionStartsAt_here:
  assumes "s = pre @ c # cs" "length pre = i" "prev = (if pre = [] then None else Some (last pre))"
  shows "mentionStartsAt s i \<longleftrightarrow>
     c = CHR ''@'' \<and> \<not> (case prev of None \<Rightarrow> False | Some p \<Rightarrow> isWordChar p)
       \<and> (case cs of [] \<Rightarrow> False | d # _ \<Rightarrow> isAlpha d)"
proof -
  have c: "s ! i = c" using assms(1,2) by (simp add: nth_append)
  have l: "i < length s" using assms(1,2) by simp
  have p: "(if i = 0 then True else \<not> isWordChar (s ! (i - 1)))
      \<longleftrightarrow> \<not> (case prev of None \<Rightarrow> False | Some p \<Rightarrow> isWordChar p)"
  proof (cases "pre = []")
    case True
    then show ?thesis using assms(2,3) by simp
  next
    case False
    then have "0 < i" using assms(2) by auto
    then have "s ! (i - 1) = last pre"
      using False assms(1,2) by (simp add: nth_append last_conv_nth)
    then show ?thesis using False assms(2,3) \<open>0 < i\<close> by simp
  qed
  have n: "Suc i < length s \<and> isAlpha (s ! Suc i) \<longleftrightarrow> (case cs of [] \<Rightarrow> False | d # _ \<Rightarrow> isAlpha d)"
    using assms(1,2) by (cases cs) (simp_all add: nth_append)
  show ?thesis unfolding mentionStartsAt_def using c l p n by simp
qed

lemma mentionMatches_grammar_from:
  "s = pre @ rest \<Longrightarrow> length pre = i \<Longrightarrow> prev = (if pre = [] then None else Some (last pre)) \<Longrightarrow>
   mentionMatches i prev rest =
     map (\<lambda>j. (j, takeWhile isNameChar (drop (Suc j) s)))
       (filter (mentionStartsAt s) [i..<length s])"
proof (induction i prev rest arbitrary: pre rule: mentionMatches.induct)
  case (1 i prev)
  then show ?case by simp
next
  case (2 i prev c cs)
  let ?m = "c = CHR ''@'' \<and> \<not> (case prev of None \<Rightarrow> False | Some p \<Rightarrow> isWordChar p)
         \<and> (case cs of [] \<Rightarrow> False | d # _ \<Rightarrow> isAlpha d)"
  let ?run = "takeWhile isNameChar cs"
  let ?f = "\<lambda>j. (j, takeWhile isNameChar (drop (Suc j) s))"
  have here: "mentionStartsAt s i \<longleftrightarrow> ?m"
    by (rule mentionStartsAt_here [OF "2.prems"])
  have il: "i < length s" using "2.prems"(1,2) by simp
  have upt: "[i..<length s] = i # [Suc i..<length s]" using il by (simp add: upt_conv_Cons)
  have dr: "drop (Suc i) s = cs" using "2.prems"(1,2) by simp
  show ?case
  proof (cases ?m)
    case True
    then obtain d ds where cs: "cs = d # ds" and d: "isAlpha d" by (cases cs) auto
    then have run_ne: "?run \<noteq> []" by (simp add: isNameChar_def)
    have unfold: "mentionMatches i prev (c # cs)
        = (i, ?run) # mentionMatches (i + 1 + length ?run) (Some (last ?run)) (dropWhile isNameChar cs)"
      by (subst mentionMatches.simps(2)) (rule if_P [OF True])
    let ?pre = "pre @ c # ?run"
    have t: "s = ?pre @ dropWhile isNameChar cs" using "2.prems"(1) by simp
    have l: "length ?pre = i + 1 + length ?run" using "2.prems"(2) by simp
    have p: "Some (last ?run) = (if ?pre = [] then None else Some (last ?pre))"
      using run_ne by simp
    note ih = "2.IH"(1) [OF True t l p]
    have le: "Suc i + length ?run \<le> length s"
      using "2.prems"(1,2) length_takeWhile_le [of isNameChar cs] by simp
    have split: "[Suc i..<length s] = [Suc i..<Suc i + length ?run] @ [Suc i + length ?run..<length s]"
      using le by (metis le_add1 le_Suc_ex upt_add_eq_append)
    have inrun: "\<not> mentionStartsAt s j" if "j \<in> set [Suc i..<Suc i + length ?run]" for j
    proof -
      from that have j: "Suc i \<le> j" "j - Suc i < length ?run" by auto
      have "s ! j = cs ! (j - Suc i)"
        using j "2.prems"(1,2) by (simp add: nth_append)
      also have "\<dots> = ?run ! (j - Suc i)" using j(2) by (simp add: takeWhile_nth)
      finally have "isNameChar (s ! j)" using j(2) nth_mem [OF j(2)]
        by (metis set_takeWhileD)
      then have "s ! j \<noteq> CHR ''@''" using at_not_nameChar by auto
      then show ?thesis by (simp add: mentionStartsAt_def)
    qed
    then have "filter (mentionStartsAt s) [Suc i..<Suc i + length ?run] = []"
      by (simp only: filter_empty_conv) blast
    then have "filter (mentionStartsAt s) [Suc i..<length s]
        = filter (mentionStartsAt s) [Suc i + length ?run..<length s]"
      by (subst split) simp
    with True here upt dr unfold ih show ?thesis by simp
  next
    case False
    have unfold: "mentionMatches i prev (c # cs) = mentionMatches (i + 1) (Some c) cs"
      by (subst mentionMatches.simps(2)) (rule if_not_P [OF False])
    have t: "s = (pre @ [c]) @ cs" using "2.prems"(1) by simp
    have l: "length (pre @ [c]) = i + 1" using "2.prems"(2) by simp
    have p: "Some c = (if pre @ [c] = [] then None else Some (last (pre @ [c])))" by simp
    from "2.IH"(2) [OF False t l p] False here upt unfold show ?thesis by simp
  qed
qed

lemma mentionMatches_grammar: "mentionMatches 0 None s = grammarMatches s"
  unfolding grammarMatches_def
  by (rule mentionMatches_grammar_from [of s "[]"]) simp_all

lemma mentionMatches_single:
  assumes "w \<noteq> []" "isAlpha (hd w)" "\<forall>c \<in> set w. isNameChar c"
  shows "mentionMatches 0 None (CHR ''@'' # w) = [(0, w)]"
proof -
  obtain d ds where w: "w = d # ds" using assms(1) by (cases w) auto
  have tw: "takeWhile isNameChar w = w" and dw: "dropWhile isNameChar w = []"
    using assms(3) by simp_all
  have c: "CHR ''@'' = CHR ''@'' \<and> \<not> (case None of None \<Rightarrow> False | Some p \<Rightarrow> isWordChar p)
         \<and> (case w of [] \<Rightarrow> False | d # _ \<Rightarrow> isAlpha d)"
    using assms(2) w by simp
  have "mentionMatches 0 None (CHR ''@'' # w)
      = (0, takeWhile isNameChar w) # mentionMatches (0 + 1 + length (takeWhile isNameChar w))
          (Some (last (takeWhile isNameChar w))) (dropWhile isNameChar w)"
    by (subst mentionMatches.simps(2)) (rule if_P [OF c])
  then show ?thesis by (simp add: tw dw)
qed

lemma extractMentions_single:
  assumes "w \<noteq> []" "isAlpha (hd w)" "\<forall>c \<in> set w. isNameChar c"
  shows "extractMentions (CHR ''@'' # w)
      = (if 2 \<le> length (stripTrailingPunct w) \<and> length (stripTrailingPunct w) \<le> 50
         then [stripTrailingPunct w] else [])"
  by (simp add: extractMentions_def mentionMatches_single [OF assms] List.map_filter_def
      cleanUsername_def Let_def arrayFromSet_def setAdd_def del: mentionMatches.simps) 

lemma set_map_filter_iff:
  "y \<in> set (List.map_filter f xs) \<longleftrightarrow> (\<exists>x \<in> set xs. f x = Some y)"
  by (induction xs) (auto split: option.splits)

lemma extractMentions_members:
  "u \<in> set (extractMentions text) \<longleftrightarrow>
     (\<exists>m \<in> set (mentionMatches 0 None text). cleanUsername (snd m) = Some u)"
proof (cases "text = []")
  case True
  then show ?thesis by (simp add: extractMentions_def)
next
  case False
  then have "set (extractMentions text)
      = set (List.map_filter (\<lambda>m. cleanUsername (snd m)) (mentionMatches 0 None text))"
    by (simp add: extractMentions_def arrayFromSet_def foldl_setAdd_set)
  then show ?thesis by (simp add: set_map_filter_iff)
qed

lemma cleanUsername_Some:
  assumes "cleanUsername cap = Some u"
  shows "u = stripTrailingPunct cap \<and> 2 \<le> length u \<and> length u \<le> 50 \<and> \<not> isTrailingPunct (last u)"
proof -
  from assms have u: "u = stripTrailingPunct cap" and l: "2 \<le> length u" "length u \<le> 50"
    by (auto simp: cleanUsername_def Let_def split: if_splits)
  from l(1) have "u \<noteq> []" by auto
  with u stripTrailingPunct_last [of cap] have "\<not> isTrailingPunct (last u)" by simp
  with u l show ?thesis by simp
qed

lemma extractMentions_distinct: "distinct (extractMentions text)"
  by (simp add: extractMentions_def arrayFromSet_def foldl_setAdd_distinct del: mentionMatches.simps)


lemma extractMentions_firstOccurrences:
  "extractMentions text =
     firstOccurrences (List.map_filter (\<lambda>m. cleanUsername (snd m)) (mentionMatches 0 None text))"
  by (cases "text = []") (simp_all add: extractMentions_def arrayFromSet_firstOccurrences)

lemma extractMentions_not_after_word:
  assumes "0 < i" "isWordChar (text ! (i - 1))"
  shows "i \<notin> fst ` set (mentionMatches 0 None text)"
proof
  assume "i \<in> fst ` set (mentionMatches 0 None text)"
  then obtain cap where "(i, cap) \<in> set (mentionMatches 0 None text)" by auto
  from mentionMatches_positions [OF _ _ _ this, of "text" "[]"] assms show False by simp
qed

lemma extractMentions_from_match:
  assumes "u \<in> set (extractMentions text)"
  shows "\<exists>j cap. (j, cap) \<in> set (mentionMatches 0 None text)
           \<and> j < length text \<and> text ! j = CHR ''@''
           \<and> (j = 0 \<or> \<not> isWordChar (text ! (j - 1)))
           \<and> cap = takeWhile isNameChar (drop (Suc j) text) \<and> isAlpha (hd cap)
           \<and> u = stripTrailingPunct cap"
proof -
  from assms obtain j cap where m: "(j, cap) \<in> set (mentionMatches 0 None text)"
    and c: "cleanUsername cap = Some u"
    by (auto simp: extractMentions_members)
  have "0 \<le> j \<and> j < length text \<and> text ! j = CHR ''@''
    \<and> (j = 0 \<or> \<not> isWordChar (text ! (j - 1)))
    \<and> cap = takeWhile isNameChar (drop (Suc j) text) \<and> cap \<noteq> [] \<and> isAlpha (hd cap)"
    by (rule mentionMatches_positions [OF _ _ _ m, of "text" "[]"]) simp_all
  then have "j < length text \<and> text ! j = CHR ''@'' \<and> (j = 0 \<or> \<not> isWordChar (text ! (j - 1)))
    \<and> cap = takeWhile isNameChar (drop (Suc j) text) \<and> isAlpha (hd cap)"
    by blast
  with m cleanUsername_Some [OF c] show ?thesis by blast
qed

text \<open>
  C4. The library \<open>extractMentions\<close> on every input: \<open>"@"\<close> and \<open>"@a"\<close> give no mention and
  \<open>"@ab"\<close> gives \<open>["ab"]\<close>; a candidate of 51 letters is discarded and the address
  \<open>user@host.com\<close> gives nothing; three mentions with punctuation after them give the three
  names in the order of the text, a name repeated three times gives it once, and a name
  that comes back after another one keeps its first place. For every text, the matches
  of the scan are exactly the mention starts of the grammar, from left to right, each
  with its run of name characters. Each extracted name has between 2 and 50 characters
  and comes from such a match with the trailing punctuation removed, so the length is
  checked on the stripped name; no match starts at an \<open>@\<close> that follows a word character; a
  single candidate \<open>@w\<close> is kept exactly when the stripped \<open>w\<close> has 2 to 50 characters;
  stripping removes punctuation characters at the end only and leaves none there; and
  the result is the list of the valid names of the grammar's matches, in the order of
  the text, with every name kept at its first occurrence only, hence without repetition.
\<close>

theorem extractMentions_edge_cases:
  "extractMentions ''@'' = []
   \<and> extractMentions ''@a'' = []
   \<and> extractMentions ''@ab'' = [''ab'']
   \<and> extractMentions ''user@host.com'' = []
   \<and> extractMentions (CHR ''@'' # replicate 51 (CHR ''a'')) = []
   \<and> extractMentions ''@john! @sarah? @mike.'' = [''john'', ''sarah'', ''mike'']
   \<and> extractMentions ''@john @john @john'' = [''john'']
   \<and> extractMentions ''@bob @al @bob'' = [''bob'', ''al'']
   \<and> mentionMatches 0 None text = grammarMatches text
   \<and> (\<forall>u \<in> set (extractMentions text). 2 \<le> length u \<and> length u \<le> 50
         \<and> \<not> isTrailingPunct (last u)
         \<and> (\<exists>j cap. (j, cap) \<in> set (mentionMatches 0 None text)
               \<and> j < length text \<and> text ! j = CHR ''@''
               \<and> (j = 0 \<or> \<not> isWordChar (text ! (j - 1)))
               \<and> cap = takeWhile isNameChar (drop (Suc j) text) \<and> isAlpha (hd cap)
               \<and> u = stripTrailingPunct cap))
   \<and> (\<forall>i. 0 < i \<and> isWordChar (text ! (i - 1)) \<longrightarrow> i \<notin> fst ` set (mentionMatches 0 None text))
   \<and> (w \<noteq> [] \<and> isAlpha (hd w) \<and> list_all isNameChar w \<longrightarrow>
         extractMentions (CHR ''@'' # w)
           = (if 2 \<le> length (stripTrailingPunct w) \<and> length (stripTrailingPunct w) \<le> 50
              then [stripTrailingPunct w] else []))
   \<and> (\<exists>ps. w = stripTrailingPunct w @ ps \<and> list_all isTrailingPunct ps)
   \<and> (stripTrailingPunct w = [] \<or> \<not> isTrailingPunct (last (stripTrailingPunct w)))
   \<and> extractMentions text =
         firstOccurrences
           (List.map_filter (\<lambda>m. cleanUsername (snd m)) (mentionMatches 0 None text))
   \<and> extractMentions text =
         firstOccurrences
           (List.map_filter (\<lambda>m. cleanUsername (snd m)) (grammarMatches text))
   \<and> distinct (extractMentions text)"
proof -
  have e1: "extractMentions ''@'' = []" by code_simp
  have e2: "extractMentions ''@a'' = []" by code_simp
  have e3: "extractMentions ''@ab'' = [''ab'']" by code_simp
  have e4: "extractMentions ''user@host.com'' = []" by code_simp
  have e5: "extractMentions (CHR ''@'' # replicate 51 (CHR ''a'')) = []" by code_simp
  have e6: "extractMentions ''@john! @sarah? @mike.'' = [''john'', ''sarah'', ''mike'']"
    by code_simp
  have e7: "extractMentions ''@john @john @john'' = [''john'']" by code_simp
  have e8: "extractMentions ''@bob @al @bob'' = [''bob'', ''al'']" by code_simp
  note gram = mentionMatches_grammar [of "text"]
  have bound: "\<forall>u \<in> set (extractMentions text). 2 \<le> length u \<and> length u \<le> 50
         \<and> \<not> isTrailingPunct (last u)
         \<and> (\<exists>j cap. (j, cap) \<in> set (mentionMatches 0 None text)
               \<and> j < length text \<and> text ! j = CHR ''@''
               \<and> (j = 0 \<or> \<not> isWordChar (text ! (j - 1)))
               \<and> cap = takeWhile isNameChar (drop (Suc j) text) \<and> isAlpha (hd cap)
               \<and> u = stripTrailingPunct cap)"
  proof
    fix u assume u: "u \<in> set (extractMentions text)"
    then obtain m :: "nat \<times> string" where "cleanUsername (snd m) = Some u"
      by (auto simp: extractMentions_members)
    from cleanUsername_Some [OF this] have
      "2 \<le> length u \<and> length u \<le> 50 \<and> \<not> isTrailingPunct (last u)" by blast
    with extractMentions_from_match [OF u]
    show "2 \<le> length u \<and> length u \<le> 50 \<and> \<not> isTrailingPunct (last u)
         \<and> (\<exists>j cap. (j, cap) \<in> set (mentionMatches 0 None text)
               \<and> j < length text \<and> text ! j = CHR ''@''
               \<and> (j = 0 \<or> \<not> isWordChar (text ! (j - 1)))
               \<and> cap = takeWhile isNameChar (drop (Suc j) text) \<and> isAlpha (hd cap)
               \<and> u = stripTrailingPunct cap)"
      by blast
  qed
  have email: "\<forall>i. 0 < i \<and> isWordChar (text ! (i - 1))
      \<longrightarrow> i \<notin> fst ` set (mentionMatches 0 None text)"
    using extractMentions_not_after_word by blast
  have single: "w \<noteq> [] \<and> isAlpha (hd w) \<and> list_all isNameChar w \<longrightarrow>
         extractMentions (CHR ''@'' # w)
           = (if 2 \<le> length (stripTrailingPunct w) \<and> length (stripTrailingPunct w) \<le> 50
              then [stripTrailingPunct w] else [])"
    using extractMentions_single [of w] by (simp add: list_all_iff)
  have strip: "\<exists>ps. w = stripTrailingPunct w @ ps \<and> list_all isTrailingPunct ps"
    using stripTrailingPunct_prefix [of w] by (simp add: list_all_iff)
  have clean: "stripTrailingPunct w = [] \<or> \<not> isTrailingPunct (last (stripTrailingPunct w))"
    using stripTrailingPunct_last [of w] by blast
  note first = extractMentions_firstOccurrences [of "text"]
  have firstg: "extractMentions text =
         firstOccurrences
           (List.map_filter (\<lambda>m. cleanUsername (snd m)) (grammarMatches text))"
    using first by (simp only: gram)
  note dist = extractMentions_distinct [of "text"]
  show ?thesis
    by (intro conjI e1 e2 e3 e4 e5 e6 e7 e8 gram bound email single strip clean first firstg dist)
qed

theorem extractMentions_edge_cases_witness:
  "extractMentions ''@bob! a@cd @al @bob'' = [''bob'', ''al'']
   \<and> mentionMatches 0 None ''@bob! a@cd @al @bob'' = [(0, ''bob''), (11, ''al''), (15, ''bob'')]
   \<and> 2 \<le> length ''al'' \<and> length ''al'' \<le> 50 \<and> \<not> isTrailingPunct (last ''al'')
   \<and> (0::nat) < 7 \<and> isWordChar (''@bob! a@cd @al @bob'' ! (7 - 1))
   \<and> 7 \<notin> fst ` set (mentionMatches 0 None ''@bob! a@cd @al @bob'')
   \<and> ''bob.'' \<noteq> [] \<and> isAlpha (hd ''bob.'') \<and> list_all isNameChar ''bob.''
   \<and> extractMentions ''@bob.'' = [''bob'']
   \<and> distinct (extractMentions ''@bob! a@cd @al @bob'')"
proof -
  note th = extractMentions_edge_cases [of "''@bob! a@cd @al @bob''" "''bob.''"]
  have g: "grammarMatches ''@bob! a@cd @al @bob'' = [(0, ''bob''), (11, ''al''), (15, ''bob'')]"
    by code_simp
  have f: "firstOccurrences (List.map_filter (\<lambda>m. cleanUsername (snd m))
             [(0::nat, ''bob''), (11, ''al''), (15, ''bob'')]) = [''bob'', ''al'']"
    by code_simp
  from th have "mentionMatches 0 None ''@bob! a@cd @al @bob''
      = grammarMatches ''@bob! a@cd @al @bob''"
    by blast
  then have mm: "mentionMatches 0 None ''@bob! a@cd @al @bob''
      = [(0, ''bob''), (11, ''al''), (15, ''bob'')]"
    by (simp only: g)
  from th have "extractMentions ''@bob! a@cd @al @bob'' =
      firstOccurrences (List.map_filter (\<lambda>m. cleanUsername (snd m))
        (grammarMatches ''@bob! a@cd @al @bob''))"
    by blast
  then have ev: "extractMentions ''@bob! a@cd @al @bob'' = [''bob'', ''al'']"
    by (simp only: g f)
  then have mem: "''al'' \<in> set (extractMentions ''@bob! a@cd @al @bob'')"
    by simp
  have w: "''bob.'' \<noteq> [] \<and> isAlpha (hd ''bob.'') \<and> list_all isNameChar ''bob.''" by code_simp
  have s: "stripTrailingPunct ''bob.'' = ''bob''" by code_simp
  have i: "(0::nat) < 7 \<and> isWordChar (''@bob! a@cd @al @bob'' ! (7 - 1))" by code_simp
  from th mem have b: "2 \<le> length ''al'' \<and> length ''al'' \<le> 50 \<and> \<not> isTrailingPunct (last ''al'')"
    by blast
  from th i have e: "7 \<notin> fst ` set (mentionMatches 0 None ''@bob! a@cd @al @bob'')"
    by blast
  from th w have "extractMentions (CHR ''@'' # ''bob.'')
      = (if 2 \<le> length (stripTrailingPunct ''bob.'') \<and> length (stripTrailingPunct ''bob.'') \<le> 50
         then [stripTrailingPunct ''bob.''] else [])"
    by blast
  then have x: "extractMentions ''@bob.'' = [''bob'']"
    unfolding s by simp
  from th have d: "distinct (extractMentions ''@bob! a@cd @al @bob'')" by blast
  from ev mm b i e w x d show ?thesis by blast
qed

section \<open>Preference evaluation in the dispatcher and in the query\<close>

lemma shouldSendNotification_quiet_hours_first:
  assumes "queryPreferences d uid wid = Inr (Some p)"
    and "isInQuietHours clk (quietHours (globalPreferences p))"
  shows "shouldSendNotification d clk uid wid cid ntype = Inr False"
  using assms by (simp add: shouldSendNotification_def docPreferences_def)

lemma shouldSendMentionNotification_override:
  assumes "findChannelPref (channelPreferences prefs) c = Some entry"
  shows "shouldSendMentionNotification prefs (Some c) =
           (case channelPreference.mentions entry of
              Enabled \<Rightarrow> True
            | Disabled \<Rightarrow> False
            | Inherit \<Rightarrow> globalPreferences.mentions (globalPreferences prefs))"
  using assms by (simp add: shouldSendMentionNotification_def)

lemma shouldSendMentionNotification_no_entry:
  assumes "findChannelPref (channelPreferences prefs) c = None"
  shows "shouldSendMentionNotification prefs (Some c)
           = globalPreferences.mentions (globalPreferences prefs)"
  using assms by (simp add: shouldSendMentionNotification_def)

text \<open>
  C1. Evaluation at a failing input. User 2 has quiet hours 22:00 to 08:00 enabled,
  mentions enabled globally and the entry \<open>mentions = enabled\<close> for channel 7. At 23:00
  UTC the time is in the quiet hours and the query \<open>shouldSendNotification\<close> denies, but
  the dispatcher's \<open>checkNotificationPreferences\<close> allows: it returns at the channel
  entry, before it looks at the quiet hours.
\<close>

theorem checkNotificationPreferences_ignores_quiet_hours:
  "isInQuietHours (clockAt 23 0) (exQuietHours True)
   \<and> shouldSendNotification (exDb [exDoc 50 2 (exGlobal True True) [exChannel 7 Enabled]])
         (clockAt 23 0) 2 1 (Some 7) Mention = Inr False
   \<and> checkNotificationPreferences (exDb [exDoc 50 2 (exGlobal True True) [exChannel 7 Enabled]])
         (clockAt 23 0) 2 1 (Some 7) = Inr True"
  by code_simp

text \<open>
  C2. Evaluation at a failing input. User 2 has mentions disabled globally and the
  entry \<open>mentions = enabled\<close> for channel 7, no quiet hours and no mute. The query
  \<open>shouldSendNotification\<close> allows the mention, but the dispatcher's
  \<open>checkNotificationPreferences\<close> denies it: it returns at the global setting, before
  it looks at the channel entry.
\<close>

theorem checkNotificationPreferences_global_before_channel:
  "shouldSendMentionNotification
       (docPreferences (exDoc 50 2 (exGlobal False False) [exChannel 7 Enabled])) (Some 7) = True
   \<and> shouldSendNotification (exDb [exDoc 50 2 (exGlobal False False) [exChannel 7 Enabled]])
         (clockAt 12 0) 2 1 (Some 7) Mention = Inr True
   \<and> checkNotificationPreferences (exDb [exDoc 50 2 (exGlobal False False) [exChannel 7 Enabled]])
         (clockAt 12 0) 2 1 (Some 7) = Inr False"
  by code_simp

section \<open>The two extractors\<close>

text \<open>
  C3. Evaluation at failing inputs. On the body of the specification's example the
  library extractor gives \<open>sarah\<close> only, and the dispatcher's own \<open>extractMentions\<close>
  gives \<open>b\<close> as well, from the address. The dispatcher's extractor also stops at a dot
  and keeps a name of one character.
\<close>

theorem extractMentions_messages_differs:
  "extractMentions ''contact me at a@b.com or @sarah'' = [''sarah'']
   \<and> extractMentions_messages ''contact me at a@b.com or @sarah'' = [''b'', ''sarah'']
   \<and> extractMentions ''@john.doe'' = [''john.doe'']
   \<and> extractMentions_messages ''@john.doe'' = [''john'']
   \<and> extractMentions ''@a'' = []
   \<and> extractMentions_messages ''@a'' = [''a'']"
  by code_simp

section \<open>Resolution of mentioned names\<close>

text \<open>
  C7. Evaluation at a failing input. Member Sarah has the profile name \<open>Sarah\<close> and the
  address \<open>sarah@example.com\<close>. The mention \<open>sarah\<close>, which is her handle and differs from
  her name in letter case only, resolves to nobody; only the exact name resolves.
\<close>

theorem getMentionedUsers_exact_name_only:
  "getMentionedUsers (exDb []) 1 [''sarah''] = []
   \<and> getMentionedUsers (exDb []) 1 [''Sarah''] = [2]"
  by code_simp

section \<open>Member search\<close>

text \<open>
  C9. Evaluation at a failing input. The search term \<open>a\<close> has one character after
  trimming, and the search scans the members and returns a match.
\<close>

theorem getByUsername_one_character:
  "length (trim ''a'') = 1
   \<and> getByUsername (exDb []) (Some 1) 1 ''a'' (Some 1) =
       Inr [\<lparr> matchingMember.member_id = 11,
              matchingMember.userId = 1,
              matchingMember.workspaceId = 1,
              matchingMember.role = Admin,
              user = \<lparr> user_id = 1, name = Some ''alice'', email = Some ''alice@example.com'' \<rparr>,
              displayName = ''alice'',
              username = ''alice'' \<rparr>]"
  by code_simp

section \<open>Updates of the channel preferences\<close>

lemma find_findIndex:
  "find P xs = Some x \<Longrightarrow> \<exists>i. findIndex P xs = Some i \<and> i < length xs \<and> xs ! i = x"
  by (induction xs) (auto split: if_splits)

lemma find_None_findIndex: "find P xs = None \<Longrightarrow> findIndex P xs = None"
  by (induction xs) (auto split: if_splits)

lemma findIndex_find_update:
  "findIndex P xs = Some i \<Longrightarrow> P y \<Longrightarrow> find P (xs[i := y]) = Some y"
proof (induction xs arbitrary: i)
  case Nil
  then show ?case by simp
next
  case (Cons x xs)
  then show ?case by (cases i) (auto split: if_splits option.splits)
qed

lemma channelUpdate_channelId [simp]:
  "channelPreference.channelId (channelUpdate cid p) = cid"
  by (simp add: channelUpdate_def)

lemma spreadChannel_channelId [simp]:
  "channelPreference.channelId (spreadChannel e u) = channelPreference.channelId u"
  by (simp add: spreadChannel_def)

lemma updatedChannelPrefs_existing:
  assumes "findChannelPref cps cid = Some entry"
  shows "findChannelPref (updatedChannelPrefs cps cid p) cid
           = Some (spreadChannel entry (channelUpdate cid p))"
proof -
  from assms obtain i where i: "findIndex (\<lambda>pref. channelPreference.channelId pref = cid) cps = Some i"
    and e: "cps ! i = entry"
    unfolding findChannelPref_def by (blast dest: find_findIndex)
  have "find (\<lambda>cp. channelPreference.channelId cp = cid)
          (cps[i := spreadChannel entry (channelUpdate cid p)])
        = Some (spreadChannel entry (channelUpdate cid p))"
    by (rule findIndex_find_update [OF i]) simp
  then show ?thesis by (simp add: updatedChannelPrefs_def findChannelPref_def i e)
qed

lemma updatedChannelPrefs_new:
  assumes "findChannelPref cps cid = None"
  shows "findChannelPref (updatedChannelPrefs cps cid p) cid = Some (channelUpdate cid p)"
proof -
  from assms have "findIndex (\<lambda>pref. channelPreference.channelId pref = cid) cps = None"
    unfolding findChannelPref_def by (rule find_None_findIndex)
  moreover have "find (\<lambda>cp. channelPreference.channelId cp = cid) (cps @ [channelUpdate cid p])
      = Some (channelUpdate cid p)"
    using assms unfolding findChannelPref_def by (induction cps) (auto split: if_splits)
  ultimately show ?thesis by (simp add: updatedChannelPrefs_def findChannelPref_def)
qed

lemma unique_Some: "unique xs = Inr (Some x) \<longleftrightarrow> xs = [x]"
  by (auto simp: unique_def split: list.splits)

lemma queryPreferences_patch:
  assumes "queryPreferences d uid wid = Inr (Some doc)"
  shows "queryPreferences (patchChannelPreferences d (doc_id doc) cps now) uid wid
           = Inr (Some (doc \<lparr> channelPreferences := cps, updatedAt := now \<rparr>))"
proof -
  let ?g = "\<lambda>p. if doc_id p = doc_id doc then p \<lparr> channelPreferences := cps, updatedAt := now \<rparr> else p"
  let ?k = "\<lambda>p. preferences.userId p = uid \<and> preferences.workspaceId p = wid"
  have same: "?k (?g p) = ?k p" for p :: preferencesDoc by simp
  have "filter ?k (map ?g xs) = map ?g (filter ?k xs)" for xs :: "preferencesDoc list"
    by (induction xs) (simp_all add: same)
  moreover from assms have "filter ?k (notificationPreferences d) = [doc]"
    by (simp add: queryPreferences_def unique_Some)
  ultimately have "filter ?k (map ?g (notificationPreferences d)) = [?g doc]" by simp
  then show ?thesis
    by (simp add: queryPreferences_def patchChannelPreferences_def unique_Some)
qed

lemma updateChannel_existing:
  assumes "queryPreferences d uid wid = Inr (Some doc)"
  shows "updateChannel d (Some uid) now uid wid cid p =
     Inr (patchChannelPreferences d (doc_id doc)
            (updatedChannelPrefs (channelPreferences doc) cid p) now, doc_id doc)"
  using assms by (simp add: updateChannel_def)


lemma findIndex_Some:
  "findIndex P xs = Some i \<Longrightarrow> i < length xs \<and> P (xs ! i)"
proof (induction xs arbitrary: i)
  case Nil
  then show ?case by simp
next
  case (Cons x xs)
  then show ?case by (cases i) (auto split: if_splits option.splits)
qed

lemma findIndex_None: "findIndex P xs = None \<Longrightarrow> \<forall>x \<in> set xs. \<not> P x"
  by (induction xs) (auto split: if_splits option.splits)

lemma updatedChannelPrefs_distinct:
  assumes "distinct (map channelPreference.channelId cps)"
  shows "distinct (map channelPreference.channelId (updatedChannelPrefs cps cid p))"
proof (cases "findIndex (\<lambda>pref. channelPreference.channelId pref = cid) cps")
  case None
  from findIndex_None [OF None] have "cid \<notin> set (map channelPreference.channelId cps)"
    by auto
  with assms None show ?thesis by (simp add: updatedChannelPrefs_def)
next
  case (Some i)
  from findIndex_Some [OF Some]
  have "i < length cps" "channelPreference.channelId (cps ! i) = cid" by simp_all
  then have "map channelPreference.channelId
               (cps[i := spreadChannel (cps ! i) (channelUpdate cid p)])
             = map channelPreference.channelId cps"
    by (simp add: map_update list_update_same_conv)
  with assms Some show ?thesis by (simp add: updatedChannelPrefs_def)
qed

text \<open>
  C8. Evaluation at a failing input. The entry of channel 7 has \<open>mentions = enabled\<close>,
  \<open>allMessages = enabled\<close>, \<open>threads = disabled\<close> and the keyword \<open>urgent\<close>. An update that
  names \<open>mutedUntil\<close> only resets the four other fields to their defaults.
\<close>

theorem updateChannel_resets_unnamed_fields:
  "updatedChannelPrefs [exTunedChannel] 7 (exMuteOnly (Value 5000)) =
     [\<lparr> channelPreference.channelId = 7,
        channelPreference.mentions = Inherit,
        channelPreference.allMessages = Disabled,
        channelPreference.threads = Enabled,
        channelPreference.keywordList = [],
        channelPreference.mutedUntil = Some 5000 \<rparr>]
   \<and> (case updateChannel (exDb [exDoc 50 2 (exGlobal True False) [exTunedChannel]])
              (Some 2) 1000 2 1 7 (exMuteOnly (Value 5000)) of
         Inl e \<Rightarrow> None
       | Inr (d', i) \<Rightarrow> Some (map channelPreferences (notificationPreferences d')))
       = Some [[\<lparr> channelPreference.channelId = 7,
                  channelPreference.mentions = Inherit,
                  channelPreference.allMessages = Disabled,
                  channelPreference.threads = Enabled,
                  channelPreference.keywordList = [],
                  channelPreference.mutedUntil = Some 5000 \<rparr>]]"
  by code_simp

text \<open>
  C10. Counterexample to the last clause. Channel 7 is muted until 9000 and the time is
  1000, so a mention is denied. \<open>updateChannel\<close> with \<open>mutedUntil = 999\<close>, a time that has
  passed, stores that number; the mute is over before 9000 and the mention is allowed.
\<close>

theorem updateChannel_past_time_ends_mute:
  "shouldSendNotification (exDb [exDoc 50 2 (exGlobal True False) [exMutedChannel]])
       \<lparr> nowMs = 1000, tzOffsetMinutes = 0 \<rparr> 2 1 (Some 7) Mention = Inr False
   \<and> updateChannel (exDb [exDoc 50 2 (exGlobal True False) [exMutedChannel]])
         (Some 2) 1000 2 1 7 (exMuteOnly (Value 999))
       = Inr (exDb [(exDoc 50 2 (exGlobal True False) [exExpiredChannel]) \<lparr> updatedAt := 1000 \<rparr>], 50)
   \<and> shouldSendNotification
         (exDb [(exDoc 50 2 (exGlobal True False) [exExpiredChannel]) \<lparr> updatedAt := 1000 \<rparr>])
         \<lparr> nowMs = 1000, tzOffsetMinutes = 0 \<rparr> 2 1 (Some 7) Mention = Inr True
   \<and> isMuted 1000 (Some ((exChannel 7 Inherit) \<lparr> channelPreference.mutedUntil := Some 0 \<rparr>)) = False"
  by code_simp

text \<open>
  C10, amended. When the user's preference document has an entry for the channel whose
  \<open>mutedUntil\<close> is set to \<open>t\<close>, \<open>updateChannel\<close> succeeds and the entry of the channel in
  the stored document still has \<open>mutedUntil\<close> set afterwards: to \<open>t\<close> when the argument
  \<open>mutedUntil\<close> is \<open>null\<close> or absent, and to the number given otherwise. So \<open>null\<close> leaves the
  mute as it is and no argument removes the field; a number replaces the stored time, and
  the channel is muted afterwards exactly when the time that is stored then is not \<open>0\<close>
  and lies in the future.
\<close>

theorem updateChannel_null_keeps_mute:
  assumes q: "queryPreferences d uid wid = Inr (Some doc)"
    and f: "findChannelPref (channelPreferences doc) cid = Some entry"
    and m: "channelPreference.mutedUntil entry = Some t"
  shows "\<exists>d' doc' entry'.
           updateChannel d (Some uid) now uid wid cid p = Inr (d', doc_id doc)
         \<and> queryPreferences d' uid wid = Inr (Some doc')
         \<and> findChannelPref (channelPreferences doc') cid = Some entry'
         \<and> (channelPreferencesUpdate.mutedUntil p = Null
              \<longrightarrow> channelPreference.mutedUntil entry' = Some t)
         \<and> channelPreference.mutedUntil entry' =
              (case channelPreferencesUpdate.mutedUntil p of
                 Undefined \<Rightarrow> Some t | Null \<Rightarrow> Some t | Value v \<Rightarrow> Some v)
         \<and> isMuted later (Some entry') =
              (case channelPreferencesUpdate.mutedUntil p of
                 Undefined \<Rightarrow> t \<noteq> 0 \<and> t > later
               | Null \<Rightarrow> t \<noteq> 0 \<and> t > later
               | Value v \<Rightarrow> v \<noteq> 0 \<and> v > later)"
proof -
  let ?cps = "updatedChannelPrefs (channelPreferences doc) cid p"
  let ?d = "patchChannelPreferences d (doc_id doc) ?cps now"
  let ?doc = "doc \<lparr> channelPreferences := ?cps, updatedAt := now \<rparr>"
  let ?entry = "spreadChannel entry (channelUpdate cid p)"
  have 1: "updateChannel d (Some uid) now uid wid cid p = Inr (?d, doc_id doc)"
    by (rule updateChannel_existing [OF q])
  have 2: "queryPreferences ?d uid wid = Inr (Some ?doc)"
    by (rule queryPreferences_patch [OF q])
  have 3: "findChannelPref (channelPreferences ?doc) cid = Some ?entry"
    using updatedChannelPrefs_existing [OF f] by simp
  have 4: "channelPreference.mutedUntil ?entry =
              (case channelPreferencesUpdate.mutedUntil p of
                 Undefined \<Rightarrow> Some t | Null \<Rightarrow> Some t | Value v \<Rightarrow> Some v)"
    using m by (simp add: spreadChannel_def channelUpdate_def split: nullable.splits)
  then have 5: "channelPreferencesUpdate.mutedUntil p = Null
              \<longrightarrow> channelPreference.mutedUntil ?entry = Some t"
    by simp
  have 6: "isMuted later (Some ?entry) =
              (case channelPreferencesUpdate.mutedUntil p of
                 Undefined \<Rightarrow> t \<noteq> 0 \<and> t > later
               | Null \<Rightarrow> t \<noteq> 0 \<and> t > later
               | Value v \<Rightarrow> v \<noteq> 0 \<and> v > later)"
    unfolding isMuted_def by (simp add: 4 split: nullable.splits)
  from 1 2 3 4 5 6 show ?thesis by blast
qed

theorem updateChannel_null_keeps_mute_witness:
  "queryPreferences (exDb [exDoc 50 2 (exGlobal True False) [exMutedChannel]]) 2 1
     = Inr (Some (exDoc 50 2 (exGlobal True False) [exMutedChannel]))
   \<and> findChannelPref (channelPreferences (exDoc 50 2 (exGlobal True False) [exMutedChannel])) 7
       = Some exMutedChannel
   \<and> channelPreference.mutedUntil exMutedChannel = Some 9000
   \<and> channelPreferencesUpdate.mutedUntil (exMuteOnly Null) = Null
   \<and> (\<exists>d' doc' entry'.
         updateChannel (exDb [exDoc 50 2 (exGlobal True False) [exMutedChannel]])
           (Some 2) 1000 2 1 7 (exMuteOnly Null) = Inr (d', 50)
       \<and> queryPreferences d' 2 1 = Inr (Some doc')
       \<and> findChannelPref (channelPreferences doc') 7 = Some entry'
       \<and> channelPreference.mutedUntil entry' = Some 9000
       \<and> isMuted 1000 (Some entry'))"
proof -
  have q: "queryPreferences (exDb [exDoc 50 2 (exGlobal True False) [exMutedChannel]]) 2 1
     = Inr (Some (exDoc 50 2 (exGlobal True False) [exMutedChannel]))"
    by code_simp
  have f: "findChannelPref (channelPreferences (exDoc 50 2 (exGlobal True False) [exMutedChannel])) 7
       = Some exMutedChannel"
    by code_simp
  have m: "channelPreference.mutedUntil exMutedChannel = Some 9000"
    by code_simp
  have n: "channelPreferencesUpdate.mutedUntil (exMuteOnly Null) = Null"
    by (simp add: exMuteOnly_def)
  have i: "doc_id (exDoc 50 2 (exGlobal True False) [exMutedChannel]) = 50"
    by (simp add: exDoc_def)
  from updateChannel_null_keeps_mute [OF q f m, of 1000 "exMuteOnly Null" 1000] n i
  have "\<exists>d' doc' entry'.
         updateChannel (exDb [exDoc 50 2 (exGlobal True False) [exMutedChannel]])
           (Some 2) 1000 2 1 7 (exMuteOnly Null) = Inr (d', 50)
       \<and> queryPreferences d' 2 1 = Inr (Some doc')
       \<and> findChannelPref (channelPreferences doc') 7 = Some entry'
       \<and> channelPreference.mutedUntil entry' = Some 9000
       \<and> isMuted 1000 (Some entry')"
    by auto
  with q f m n show ?thesis by blast
qed

section \<open>The dispatcher\<close>

lemma notifyEach_append:
  "notifyEach check ins author (xs @ ys) s =
     (case notifyEach check ins author xs s of
        Inl e \<Rightarrow> Inl e
      | Inr s' \<Rightarrow> notifyEach check ins author ys s')"
  by (induction xs arbitrary: s) (auto split: sum.splits)

lemma checkNotificationPreferences_cong:
  "notificationPreferences s = notificationPreferences d \<Longrightarrow>
     checkNotificationPreferences s clk uid wid cid = checkNotificationPreferences d clk uid wid cid"
  by (simp add: checkNotificationPreferences_def queryPreferences_def)

lemma notifyEach_result:
  assumes "notificationPreferences s = notificationPreferences d"
    and "notifyEach (\<lambda>s uid. checkNotificationPreferences s clk uid wid cid)
           (\<lambda>s uid. insertNotification s (mentionNotification uid mid wid cid conv now))
           author us s = Inr s'"
  shows "s' = s \<lparr> notifications := notifications s @
            map (\<lambda>uid. mentionNotification uid mid wid cid conv now)
              (filter (\<lambda>uid. author \<noteq> Some uid
                   \<and> checkNotificationPreferences d clk uid wid cid = Inr True) us) \<rparr>"
  using assms
proof (induction us arbitrary: s)
  case Nil
  then show ?case by simp
next
  case (Cons u us)
  note eq = checkNotificationPreferences_cong [OF Cons.prems(1), of clk u wid cid]
  show ?case
  proof (cases "author = Some u")
    case True
    with Cons show ?thesis by simp
  next
    case False
    show ?thesis
    proof (cases "checkNotificationPreferences d clk u wid cid")
      case (Inl e)
      with False Cons.prems eq show ?thesis by simp
    next
      case (Inr b)
      show ?thesis
      proof (cases b)
        case True
        let ?s1 = "s \<lparr> notifications := notifications s @ [mentionNotification u mid wid cid conv now] \<rparr>"
        have p: "notificationPreferences ?s1 = notificationPreferences d"
          using Cons.prems(1) by simp
        have r: "notifyEach (\<lambda>s uid. checkNotificationPreferences s clk uid wid cid)
           (\<lambda>s uid. insertNotification s (mentionNotification uid mid wid cid conv now))
           author us ?s1 = Inr s'"
          using Cons.prems(2) False Inr True eq by (simp add: insertNotification_def)
        from Cons.IH [OF p r] False Inr True show ?thesis by simp
      next
        case F: False
        with False Inr Cons.prems eq
        have r: "notifyEach (\<lambda>s uid. checkNotificationPreferences s clk uid wid cid)
           (\<lambda>s uid. insertNotification s (mentionNotification uid mid wid cid conv now))
           author us s = Inr s'"
          by simp
        from Cons.IH [OF Cons.prems(1) r] False Inr F show ?thesis by simp
      qed
    qed
  qed
qed

lemma notifyEach_total:
  assumes "notificationPreferences s = notificationPreferences d"
    and "\<forall>uid \<in> set us. \<exists>b. checkNotificationPreferences d clk uid wid cid = Inr b"
  shows "\<exists>s'. notifyEach (\<lambda>s uid. checkNotificationPreferences s clk uid wid cid)
           (\<lambda>s uid. insertNotification s (mentionNotification uid mid wid cid conv now))
           author us s = Inr s'"
  using assms
proof (induction us arbitrary: s)
  case Nil
  then show ?case by simp
next
  case (Cons u us)
  from Cons.prems(2) obtain b where b: "checkNotificationPreferences d clk u wid cid = Inr b"
    by auto
  note eq = checkNotificationPreferences_cong [OF Cons.prems(1), of clk u wid cid]
  have rest: "\<forall>uid \<in> set us. \<exists>b. checkNotificationPreferences d clk uid wid cid = Inr b"
    using Cons.prems(2) by simp
  let ?s1 = "s \<lparr> notifications := notifications s @ [mentionNotification u mid wid cid conv now] \<rparr>"
  have p: "notificationPreferences ?s1 = notificationPreferences d"
    using Cons.prems(1) by simp
  from Cons.IH [OF Cons.prems(1) rest] obtain s1 where s1:
    "notifyEach (\<lambda>s uid. checkNotificationPreferences s clk uid wid cid)
           (\<lambda>s uid. insertNotification s (mentionNotification uid mid wid cid conv now))
           author us s = Inr s1" by blast
  from Cons.IH [OF p rest] obtain s2 where s2:
    "notifyEach (\<lambda>s uid. checkNotificationPreferences s clk uid wid cid)
           (\<lambda>s uid. insertNotification s (mentionNotification uid mid wid cid conv now))
           author us ?s1 = Inr s2" by blast
  show ?case
  proof (cases "author = Some u")
    case True
    with s1 show ?thesis by simp
  next
    case False
    with s1 s2 b eq show ?thesis by (cases b) (simp_all add: insertNotification_def)
  qed
qed

lemma distinct_filter_key:
  "distinct (map f xs) \<Longrightarrow> length (filter (\<lambda>x. f x = k) xs) \<le> 1"
proof (induction xs)
  case Nil
  then show ?case by simp
next
  case (Cons x xs)
  show ?case
  proof (cases "f x = k")
    case True
    with Cons.prems have "\<forall>y \<in> set xs. f y \<noteq> k"
      by (auto simp: image_iff)
    then have "filter (\<lambda>x. f x = k) xs = []"
      by (simp add: filter_empty_conv)
    with True show ?thesis by simp
  next
    case False
    with Cons show ?thesis by simp
  qed
qed

lemma unique_ok: "length xs \<le> 1 \<Longrightarrow> \<exists>r. unique xs = Inr r"
  by (cases xs rule: list.exhaust; simp add: unique_def split: list.splits)

lemma queryPreferences_ok:
  assumes "distinct (map (\<lambda>p. (preferences.userId p, preferences.workspaceId p)) (notificationPreferences d))"
  shows "\<exists>r. queryPreferences d uid wid = Inr r"
proof -
  from distinct_filter_key [OF assms, of "(uid, wid)"]
  have "length (filter (\<lambda>p. preferences.userId p = uid \<and> preferences.workspaceId p = wid)
          (notificationPreferences d)) \<le> 1"
    by simp
  then show ?thesis unfolding queryPreferences_def by (rule unique_ok)
qed

lemma checkNotificationPreferences_ok:
  assumes "distinct (map (\<lambda>p. (preferences.userId p, preferences.workspaceId p)) (notificationPreferences d))"
  shows "\<exists>b. checkNotificationPreferences d clk uid wid cid = Inr b"
proof -
  from queryPreferences_ok [OF assms] obtain r where "queryPreferences d uid wid = Inr r" by blast
  then show ?thesis
    by (cases r) (auto simp: checkNotificationPreferences_def)
qed


lemma handleMentionNotifications_result:
  assumes "handleMentionNotifications d clk mid messageBody wid cid conv (Some author) = Inr d'"
  shows "d' = d \<lparr> notifications := notifications d @
            map (\<lambda>uid. mentionNotification uid mid wid cid conv (nowMs clk))
              (filter (\<lambda>uid. uid \<noteq> author
                   \<and> checkNotificationPreferences d clk uid wid cid = Inr True)
                 (getMentionedUsers d wid (extractMentions_messages messageBody))) \<rparr>"
proof (cases "extractMentions_messages messageBody = []")
  case True
  with assms show ?thesis by (simp add: handleMentionNotifications_def getMentionedUsers_def)
next
  case False
  with assms have "notifyEach (\<lambda>s uid. checkNotificationPreferences s clk uid wid cid)
           (\<lambda>s uid. insertNotification s (mentionNotification uid mid wid cid conv (nowMs clk)))
           (Some author) (getMentionedUsers d wid (extractMentions_messages messageBody)) d = Inr d'"
    by (simp add: handleMentionNotifications_def)
  from notifyEach_result [OF refl this]
  have "d' = d \<lparr> notifications := notifications d @
            map (\<lambda>uid. mentionNotification uid mid wid cid conv (nowMs clk))
              (filter (\<lambda>uid. Some author \<noteq> Some uid
                   \<and> checkNotificationPreferences d clk uid wid cid = Inr True)
                 (getMentionedUsers d wid (extractMentions_messages messageBody))) \<rparr>" .
  moreover have "(\<lambda>uid. Some author \<noteq> Some uid
                   \<and> checkNotificationPreferences d clk uid wid cid = Inr True)
     = (\<lambda>uid. uid \<noteq> author \<and> checkNotificationPreferences d clk uid wid cid = Inr True)"
    by auto
  ultimately show ?thesis by simp
qed

lemma handleMentionNotifications_no_author:
  assumes "handleMentionNotifications d clk mid messageBody wid cid conv (Some author) = Inr d'"
  shows "\<forall>n \<in> set (notifications d'). n \<in> set (notifications d) \<or> notification.userId n \<noteq> author"
  by (subst handleMentionNotifications_result [OF assms])
     (auto simp: mentionNotification_def)

lemma handleMentionNotifications_total:
  assumes "distinct (map (\<lambda>p. (preferences.userId p, preferences.workspaceId p))
             (notificationPreferences d))"
  shows "\<exists>d'. handleMentionNotifications d clk mid messageBody wid cid conv author = Inr d'"
proof (cases "extractMentions_messages messageBody = []")
  case True
  then show ?thesis by (simp add: handleMentionNotifications_def)
next
  case False
  have "\<forall>uid \<in> set (getMentionedUsers d wid (extractMentions_messages messageBody)).
          \<exists>b. checkNotificationPreferences d clk uid wid cid = Inr b"
    using checkNotificationPreferences_ok [OF assms] by blast
  from notifyEach_total [OF refl this] False show ?thesis
    by (simp add: handleMentionNotifications_def)
qed

lemma create_Inr:
  assumes "create d clk currentUserId bodyArg imageArg wid cid parentId convArg = Inr (d2, mid2)"
  shows "\<exists>d1 conv1 a. currentUserId = Some a
           \<and> handleMentionNotifications d1 clk mid2 bodyArg wid cid conv1 (Some a) = Inr d2
           \<and> notifications d1 = notifications d
           \<and> notificationPreferences d1 = notificationPreferences d
           \<and> users d1 = users d \<and> members d1 = members d"
  using assms unfolding create_def Let_def
  by (auto split: option.splits sum.splits if_splits)


lemma notifyEach_failure:
  assumes "notifyEach check ins author pre s = Inr s1"
    and "author \<noteq> Some uid"
    and "check s1 uid = Inl e \<or> (check s1 uid = Inr True \<and> ins s1 uid = Inl e)"
  shows "notifyEach check ins author (pre @ uid # post) s = Inl e"
  using assms by (auto simp: notifyEach_append)

lemma handleMentionNotifications_failure:
  assumes r: "getMentionedUsers d wid (extractMentions_messages messageBody) = pre @ uid # post"
    and p: "\<forall>v \<in> set pre. \<exists>b. checkNotificationPreferences d clk v wid cid = Inr b"
    and a: "author \<noteq> Some uid"
    and f: "checkNotificationPreferences d clk uid wid cid = Inl e"
  shows "handleMentionNotifications d clk mid messageBody wid cid conv author = Inl e"
proof -
  let ?check = "\<lambda>s uid. checkNotificationPreferences s clk uid wid cid"
  let ?ins = "\<lambda>s uid. insertNotification s (mentionNotification uid mid wid cid conv (nowMs clk))"
  from r have ne: "extractMentions_messages messageBody \<noteq> []"
    by (auto simp: getMentionedUsers_def)
  from notifyEach_total [OF refl p] obtain s1 where
    s1: "notifyEach ?check ?ins author pre d = Inr s1" by blast
  from notifyEach_result [OF refl s1] have "notificationPreferences s1 = notificationPreferences d"
    by simp
  from checkNotificationPreferences_cong [OF this] f have "?check s1 uid = Inl e" by simp
  then have "notifyEach ?check ?ins author (pre @ uid # post) d = Inl e"
    using notifyEach_failure [of ?check ?ins author pre d s1 uid e post, OF s1 a] by blast
  with ne r show ?thesis by (simp add: handleMentionNotifications_def)
qed

text \<open>
  C6. With the author's user id passed as \<open>authorUserId\<close>, when
  \<open>handleMentionNotifications\<close> returns, the table of notifications is the old one followed
  by one record for each resolved recipient who is not the author and whose preferences
  allow it, in the order of resolution; so no new record has the author as recipient, also
  when the author's name is among the mentions. It returns whenever no two preference
  documents share user and workspace. The mutation \<open>create\<close> passes the caller as
  author, so a message never creates a notification for the user who sent it.
\<close>

theorem handleMentionNotifications_skips_author:
  "(handleMentionNotifications d clk mid messageBody wid cid conv (Some author) = Inr d' \<longrightarrow>
      d' = d \<lparr> notifications := notifications d @
             map (\<lambda>uid. mentionNotification uid mid wid cid conv (nowMs clk))
               (filter (\<lambda>uid. uid \<noteq> author
                    \<and> checkNotificationPreferences d clk uid wid cid = Inr True)
                  (getMentionedUsers d wid (extractMentions_messages messageBody))) \<rparr>
      \<and> (\<forall>n \<in> set (notifications d').
            n \<in> set (notifications d) \<or> notification.userId n \<noteq> author))
   \<and> (distinct (map (\<lambda>p. (preferences.userId p, preferences.workspaceId p))
          (notificationPreferences d)) \<longrightarrow>
        (\<exists>r. handleMentionNotifications d clk mid messageBody wid cid conv (Some author) = Inr r))
   \<and> (create d clk (Some author) bodyArg imageArg wid cid parentId convArg = Inr (dNew, midNew) \<longrightarrow>
        (\<forall>n \<in> set (notifications dNew).
            n \<in> set (notifications d) \<or> notification.userId n \<noteq> author))"
proof (intro conjI impI)
  assume h: "handleMentionNotifications d clk mid messageBody wid cid conv (Some author) = Inr d'"
  show "d' = d \<lparr> notifications := notifications d @
             map (\<lambda>uid. mentionNotification uid mid wid cid conv (nowMs clk))
               (filter (\<lambda>uid. uid \<noteq> author
                    \<and> checkNotificationPreferences d clk uid wid cid = Inr True)
                  (getMentionedUsers d wid (extractMentions_messages messageBody))) \<rparr>"
    by (rule handleMentionNotifications_result [OF h])
  show "\<forall>n \<in> set (notifications d').
            n \<in> set (notifications d) \<or> notification.userId n \<noteq> author"
    by (rule handleMentionNotifications_no_author [OF h])
next
  assume "distinct (map (\<lambda>p. (preferences.userId p, preferences.workspaceId p))
          (notificationPreferences d))"
  then show "\<exists>r. handleMentionNotifications d clk mid messageBody wid cid conv (Some author) = Inr r"
    by (rule handleMentionNotifications_total)
next
  assume "create d clk (Some author) bodyArg imageArg wid cid parentId convArg = Inr (dNew, midNew)"
  from create_Inr [OF this] obtain d1 conv1 where
    h: "handleMentionNotifications d1 clk midNew bodyArg wid cid conv1 (Some author) = Inr dNew"
    and n: "notifications d1 = notifications d"
    by auto
  from handleMentionNotifications_no_author [OF h] n
  show "\<forall>n \<in> set (notifications dNew).
            n \<in> set (notifications d) \<or> notification.userId n \<noteq> author"
    by simp
qed

theorem handleMentionNotifications_skips_author_witness:
  "handleMentionNotifications (exDb []) (clockAt 12 0) 500 ''@alice @carol'' 1 (Some 7) None (Some 1)
     = Inr ((exDb []) \<lparr> notifications := [mentionNotification 3 500 1 (Some 7) None 43200000] \<rparr>)
   \<and> notification.userId (mentionNotification 3 500 1 (Some 7) None 43200000) \<noteq> 1
   \<and> distinct (map (\<lambda>p. (preferences.userId p, preferences.workspaceId p))
        (notificationPreferences (exDb [])))
   \<and> (\<exists>d2. create (exDb []) (clockAt 12 0) (Some 1) ''@alice @carol'' None 1 (Some 7) None None
              = Inr (d2, 100)
         \<and> map notification.userId (notifications d2) = [3])"
proof -
  let ?d' = "(exDb []) \<lparr> notifications := [mentionNotification 3 500 1 (Some 7) None 43200000] \<rparr>"
  let ?d2 = "(exDb [])
     \<lparr> messages :=
         [\<lparr> message_id = 100, memberId = 11, body = ''@alice @carol'', image = None,
            message.channelId = Some 7, message.conversationId = None,
            message.workspaceId = 1, parentMessageId = None \<rparr>],
       notifications := [mentionNotification 3 100 1 (Some 7) None 43200000],
       nextId := 101 \<rparr>"
  have h: "handleMentionNotifications (exDb []) (clockAt 12 0) 500 ''@alice @carol'' 1 (Some 7) None
             (Some 1) = Inr ?d'"
    by code_simp
  have c: "create (exDb []) (clockAt 12 0) (Some 1) ''@alice @carol'' None 1 (Some 7) None None
             = Inr (?d2, 100)"
    by code_simp
  have dd: "distinct (map (\<lambda>p. (preferences.userId p, preferences.workspaceId p))
        (notificationPreferences (exDb [])))"
    by (simp add: exDb_def)
  have e: "notifications (exDb []) = []" by (simp add: exDb_def)
  note th = handleMentionNotifications_skips_author
    [where d = "exDb []" and clk = "clockAt 12 0" and mid = 500 and messageBody = "''@alice @carol''"
       and wid = 1 and cid = "Some 7" and conv = None and author = 1 and d' = ?d'
       and bodyArg = "''@alice @carol''" and imageArg = None and parentId = None and convArg = None
       and dNew = ?d2 and midNew = 100]
  from th h e have "\<forall>n \<in> set [mentionNotification 3 500 1 (Some 7) None 43200000].
      notification.userId n \<noteq> 1"
    by simp
  then have 1: "notification.userId (mentionNotification 3 500 1 (Some 7) None 43200000) \<noteq> 1"
    by simp
  from th c e have "\<forall>n \<in> set (notifications ?d2). notification.userId n \<noteq> 1"
    by simp
  moreover have "map notification.userId (notifications ?d2) = [3]"
    by (simp add: mentionNotification_def)
  ultimately have 2: "map notification.userId (notifications ?d2) = [3]"
    by simp
  show ?thesis
    by (intro conjI h 1 dd exI [of _ ?d2] c 2)
qed

text \<open>
  C5. Counterexample. User 2 has two preference documents for the workspace, so the
  \<open>.unique()\<close> of her preference lookup throws. A message of user 1 mentions her and
  carol (user 3), whose preferences allow the notification. The dispatcher fails as a
  whole, carol gets nothing, and \<open>create\<close> fails with the same error.
\<close>

theorem handleMentionNotifications_not_isolated:
  "getMentionedUsers exDuplicateDb 1 (extractMentions_messages ''@Sarah @carol'') = [2, 3]
   \<and> checkNotificationPreferences exDuplicateDb (clockAt 12 0) 2 1 (Some 7) = Inl NotUnique
   \<and> checkNotificationPreferences exDuplicateDb (clockAt 12 0) 3 1 (Some 7) = Inr True
   \<and> handleMentionNotifications exDuplicateDb (clockAt 12 0) 500 ''@Sarah @carol'' 1 (Some 7) None
        (Some 1) = Inl NotUnique
   \<and> create exDuplicateDb (clockAt 12 0) (Some 1) ''@Sarah @carol'' None 1 (Some 7) None None
        = Inl NotUnique"
  by code_simp

text \<open>
  C5, amended. A failure is not isolated: recipients are processed in order, and when
  the preference check or the insert fails for a recipient who is not the author, that
  failure is the result of the loop, whatever recipients follow; the same holds for
  \<open>handleMentionNotifications\<close> when the preference check of a resolved recipient fails
  after the recipients before it were evaluated; and \<open>create\<close> returns a message id only
  when \<open>handleMentionNotifications\<close> has returned normally.
\<close>

theorem notifyEach_stops_at_failure:
  "(notifyEach check ins authorUserId pre s = Inr s1 \<and> authorUserId \<noteq> Some uid
      \<and> (check s1 uid = Inl e \<or> (check s1 uid = Inr True \<and> ins s1 uid = Inl e))
      \<longrightarrow> notifyEach check ins authorUserId (pre @ uid # post) s = Inl e)
   \<and> (getMentionedUsers d wid (extractMentions_messages messageBody) = pre @ uid # post
      \<and> (\<forall>v \<in> set pre. \<exists>b. checkNotificationPreferences d clk v wid cid = Inr b)
      \<and> authorUserId \<noteq> Some uid
      \<and> checkNotificationPreferences d clk uid wid cid = Inl e
      \<longrightarrow> handleMentionNotifications d clk mid messageBody wid cid conv authorUserId = Inl e)
   \<and> (create d clk currentUserId bodyArg imageArg wid cid parentId convArg = Inr (dNew, midNew)
      \<longrightarrow> (\<exists>dMsg convId a. currentUserId = Some a
             \<and> handleMentionNotifications dMsg clk midNew bodyArg wid cid convId (Some a) = Inr dNew
             \<and> notifications dMsg = notifications d
             \<and> notificationPreferences dMsg = notificationPreferences d
             \<and> users dMsg = users d \<and> members dMsg = members d))"
proof (intro conjI impI)
  assume "notifyEach check ins authorUserId pre s = Inr s1 \<and> authorUserId \<noteq> Some uid
      \<and> (check s1 uid = Inl e \<or> (check s1 uid = Inr True \<and> ins s1 uid = Inl e))"
  then show "notifyEach check ins authorUserId (pre @ uid # post) s = Inl e"
    using notifyEach_failure [of check ins authorUserId pre s s1 uid e post] by blast
next
  assume "getMentionedUsers d wid (extractMentions_messages messageBody) = pre @ uid # post
      \<and> (\<forall>v \<in> set pre. \<exists>b. checkNotificationPreferences d clk v wid cid = Inr b)
      \<and> authorUserId \<noteq> Some uid
      \<and> checkNotificationPreferences d clk uid wid cid = Inl e"
  then show "handleMentionNotifications d clk mid messageBody wid cid conv authorUserId = Inl e"
    using handleMentionNotifications_failure [of d wid messageBody pre uid post clk cid authorUserId e]
    by blast
next
  assume "create d clk currentUserId bodyArg imageArg wid cid parentId convArg = Inr (dNew, midNew)"
  then show "\<exists>dMsg convId a. currentUserId = Some a
             \<and> handleMentionNotifications dMsg clk midNew bodyArg wid cid convId (Some a) = Inr dNew
             \<and> notifications dMsg = notifications d
             \<and> notificationPreferences dMsg = notificationPreferences d
             \<and> users dMsg = users d \<and> members dMsg = members d"
    by (rule create_Inr)
qed

theorem notifyEach_stops_at_failure_witness:
  "notifyEach (\<lambda>s uid. checkNotificationPreferences s (clockAt 12 0) uid 1 (Some 7))
       (\<lambda>s uid. insertNotification s (mentionNotification uid 500 1 (Some 7) None 43200000))
       (Some 3) [1] exDuplicateDb
     = Inr (exDuplicateDb \<lparr> notifications := [mentionNotification 1 500 1 (Some 7) None 43200000] \<rparr>)
   \<and> Some (3::nat) \<noteq> Some 2
   \<and> checkNotificationPreferences
        (exDuplicateDb \<lparr> notifications := [mentionNotification 1 500 1 (Some 7) None 43200000] \<rparr>)
        (clockAt 12 0) 2 1 (Some 7) = Inl NotUnique
   \<and> notifyEach (\<lambda>s uid. checkNotificationPreferences s (clockAt 12 0) uid 1 (Some 7))
       (\<lambda>s uid. insertNotification s (mentionNotification uid 500 1 (Some 7) None 43200000))
       (Some 3) ([1] @ 2 # [3]) exDuplicateDb = Inl NotUnique
   \<and> getMentionedUsers exDuplicateDb 1 (extractMentions_messages ''@alice @Sarah @carol'')
        = [1] @ 2 # [3]
   \<and> checkNotificationPreferences exDuplicateDb (clockAt 12 0) 1 1 (Some 7) = Inr True
   \<and> checkNotificationPreferences exDuplicateDb (clockAt 12 0) 2 1 (Some 7) = Inl NotUnique
   \<and> handleMentionNotifications exDuplicateDb (clockAt 12 0) 500 ''@alice @Sarah @carol'' 1
        (Some 7) None (Some 3) = Inl NotUnique
   \<and> (\<exists>dNew. create (exDb []) (clockAt 12 0) (Some 1) ''@alice @carol'' None 1 (Some 7) None None
                = Inr (dNew, 100)
         \<and> (\<exists>dMsg convId. handleMentionNotifications dMsg (clockAt 12 0) 100 ''@alice @carol'' 1
                (Some 7) convId (Some 1) = Inr dNew))"
proof -
  let ?check = "\<lambda>s uid. checkNotificationPreferences s (clockAt 12 0) uid 1 (Some 7)"
  let ?ins = "\<lambda>s uid. insertNotification s (mentionNotification uid 500 1 (Some 7) None 43200000)"
  let ?s1 = "exDuplicateDb \<lparr> notifications := [mentionNotification 1 500 1 (Some 7) None 43200000] \<rparr>"
  let ?dNew = "(exDb [])
     \<lparr> messages :=
         [\<lparr> message_id = 100, memberId = 11, body = ''@alice @carol'', image = None,
            message.channelId = Some 7, message.conversationId = None,
            message.workspaceId = 1, parentMessageId = None \<rparr>],
       notifications := [mentionNotification 3 100 1 (Some 7) None 43200000],
       nextId := 101 \<rparr>"
  have p: "notifyEach ?check ?ins (Some 3) [1] exDuplicateDb = Inr ?s1" by code_simp
  have a: "Some (3::nat) \<noteq> Some 2" by simp
  have f1: "?check ?s1 2 = Inl NotUnique" by code_simp
  have r: "getMentionedUsers exDuplicateDb 1 (extractMentions_messages ''@alice @Sarah @carol'')
        = [1] @ 2 # [3]"
    by code_simp
  have q1: "checkNotificationPreferences exDuplicateDb (clockAt 12 0) 1 1 (Some 7) = Inr True"
    by code_simp
  then have q: "\<forall>v \<in> set [1]. \<exists>b. checkNotificationPreferences exDuplicateDb (clockAt 12 0) v 1 (Some 7) = Inr b"
    by auto
  have f: "checkNotificationPreferences exDuplicateDb (clockAt 12 0) 2 1 (Some 7) = Inl NotUnique"
    by code_simp
  have c: "create (exDb []) (clockAt 12 0) (Some 1) ''@alice @carol'' None 1 (Some 7) None None
             = Inr (?dNew, 100)"
    by code_simp
  note th = notifyEach_stops_at_failure
    [where check = ?check and ins = ?ins and authorUserId = "Some 3" and pre = "[1]"
       and s = exDuplicateDb and ?s1.0 = ?s1 and uid = 2 and e = NotUnique and post = "[3]"
       and d = exDuplicateDb and wid = 1 and messageBody = "''@alice @Sarah @carol''"
       and clk = "clockAt 12 0" and cid = "Some 7" and mid = 500 and conv = None]
  have 1: "notifyEach ?check ?ins (Some 3) ([1] @ 2 # [3]) exDuplicateDb = Inl NotUnique"
    by (rule th [THEN conjunct1, rule_format]) (intro conjI disjI1 p a f1)
  have 2: "handleMentionNotifications exDuplicateDb (clockAt 12 0) 500
        ''@alice @Sarah @carol'' 1 (Some 7) None (Some 3) = Inl NotUnique"
    by (rule th [THEN conjunct2, THEN conjunct1, rule_format]) (intro conjI r q a f)
  have "\<exists>dMsg convId a. Some 1 = Some a
             \<and> handleMentionNotifications dMsg (clockAt 12 0) 100 ''@alice @carol'' 1 (Some 7)
                 convId (Some a) = Inr ?dNew
             \<and> notifications dMsg = notifications (exDb [])
             \<and> notificationPreferences dMsg = notificationPreferences (exDb [])
             \<and> users dMsg = users (exDb []) \<and> members dMsg = members (exDb [])"
    by (rule notifyEach_stops_at_failure [THEN conjunct2, THEN conjunct2, rule_format]) (rule c)
  then have 3: "\<exists>dMsg convId. handleMentionNotifications dMsg (clockAt 12 0) 100 ''@alice @carol'' 1
                (Some 7) convId (Some 1) = Inr ?dNew"
    by auto
  show ?thesis
    by (intro conjI p a f1 1 r q1 f 2 exI [of _ ?dNew] c 3)
qed

end
